theory Spec2Isabelle
  imports Complex_Main "HOL-Library.Multiset"
begin

section \<open>Tower Defence: the simulation core of \<^verbatim>\<open>tower_defence.py\<close>\<close>

text \<open>
  The embedding follows the Python source class by class. Conventions:
  \<^item> Python's unbounded \<^verbatim>\<open>int\<close> is \<^typ>\<open>int\<close>; a \<^verbatim>\<open>float\<close> is idealised as a
    \<^typ>\<open>real\<close> (exact arithmetic, \<^verbatim>\<open>math.sqrt\<close> is \<^const>\<open>sqrt\<close>); rounding is not modelled.
  \<^item> Enemy and Tower objects are shared and mutated through references (the lists of the
    game, the target of a tower or projectile, the selected tower), so they live in explicit
    heaps, one per class: a reference is a \<^typ>\<open>nat\<close>, a heap maps every reference to the
    object's current value, and a new object takes the next unused reference.  An enemy that
    has left the live list stays in the heap, as it does in Python while a projectile still
    points at it.  A Projectile is only ever reached through the game's list, so the list
    holds the values.
  \<^item> Implicit exceptions are values of type \<open>error\<close>: \<^verbatim>\<open>path[0]\<close> on an empty path and a
    division by a zero distance.
  \<^item> A field \<^verbatim>\<open>f\<close> of class \<^verbatim>\<open>C\<close> is the record field \<open>c_f\<close>; a method \<^verbatim>\<open>C.m\<close> is the function
    \<open>C_m\<close>.  Drawing code and the fields that only drawing reads (colours, the radii
    of enemies and projectiles, fonts, the screen, the hover position) are left out.
\<close>

subsection \<open>Constants and enumerations\<close>

definition SCREEN_WIDTH :: int where "SCREEN_WIDTH = 1000"
definition STARTING_MONEY :: int where "STARTING_MONEY = 500"
definition STARTING_LIVES :: int where "STARTING_LIVES = 20"
definition UPGRADE_COST :: int where "UPGRADE_COST = 150"

datatype GameState = MENU | PLAYING | PAUSED | GAME_OVER | VICTORY

datatype EnemyType = E_BASIC | E_FAST | E_TANK

datatype TowerType = T_BASIC | T_SNIPER | T_SPLASH

datatype error = IndexError | ZeroDivisionError

type_synonym path = "(int \<times> int) list"

type_synonym ref = nat

subsection \<open>Enemy\<close>

record Enemy =
  e_type :: EnemyType
  e_path :: path
  e_path_index :: nat
  e_x :: real
  e_y :: real
  e_health :: int
  e_max_health :: int
  e_speed :: real
  e_reward :: int

fun Enemy_get_max_health :: "EnemyType \<Rightarrow> int" where
  "Enemy_get_max_health E_BASIC = 100"
| "Enemy_get_max_health E_FAST = 60"
| "Enemy_get_max_health E_TANK = 250"

fun Enemy_get_speed :: "EnemyType \<Rightarrow> real" where
  "Enemy_get_speed E_BASIC = 2"
| "Enemy_get_speed E_FAST = 4"
| "Enemy_get_speed E_TANK = 1"

fun Enemy_get_reward :: "EnemyType \<Rightarrow> int" where
  "Enemy_get_reward E_BASIC = 20"
| "Enemy_get_reward E_FAST = 15"
| "Enemy_get_reward E_TANK = 50"

text \<open>\<^verbatim>\<open>Enemy.__init__\<close>: \<^verbatim>\<open>self.x, self.y = path[0]\<close> raises \<^verbatim>\<open>IndexError\<close> on an empty path.\<close>

definition Enemy_init :: "EnemyType \<Rightarrow> path \<Rightarrow> error + Enemy" where
  "Enemy_init ty p =
     (case p of
        [] \<Rightarrow> Inl IndexError
      | (px, py) # _ \<Rightarrow>
          Inr \<lparr> e_type = ty, e_path = p, e_path_index = 0,
                e_x = of_int px, e_y = of_int py,
                e_health = Enemy_get_max_health ty,
                e_max_health = Enemy_get_max_health ty,
                e_speed = Enemy_get_speed ty,
                e_reward = Enemy_get_reward ty \<rparr>)"

text \<open>
  \<^verbatim>\<open>Enemy.move\<close> returns the flag and the mutated enemy.  The index \<^verbatim>\<open>path_index + 1\<close> is in
  range below the first test.  The division is by \<^verbatim>\<open>distance\<close>, which the branch condition
  \<^verbatim>\<open>distance > speed\<close> keeps positive unless the speed is negative; a zero distance there
  is Python's \<^verbatim>\<open>ZeroDivisionError\<close>.
\<close>

definition Enemy_move :: "Enemy \<Rightarrow> error + (bool \<times> Enemy)" where
  "Enemy_move e =
     (if int (e_path_index e) \<ge> int (length (e_path e)) - 1 then Inr (True, e)
      else
        let (target_x, target_y) = e_path e ! (e_path_index e + 1);
            dx = of_int target_x - e_x e;
            dy = of_int target_y - e_y e;
            distance = sqrt (dx\<^sup>2 + dy\<^sup>2)
        in
          if distance \<le> e_speed e then
            let e1 = e\<lparr> e_path_index := e_path_index e + 1 \<rparr> in
              if int (e_path_index e1) \<ge> int (length (e_path e1)) - 1 then Inr (True, e1)
              else
                let (px, py) = e_path e1 ! e_path_index e1
                in Inr (False, e1\<lparr> e_x := of_int px, e_y := of_int py \<rparr>)
          else if distance = 0 then Inl ZeroDivisionError
          else
            Inr (False, e\<lparr> e_x := e_x e + (dx / distance) * e_speed e,
                             e_y := e_y e + (dy / distance) * e_speed e \<rparr>))"

definition Enemy_take_damage :: "Enemy \<Rightarrow> int \<Rightarrow> bool \<times> Enemy" where
  "Enemy_take_damage e damage =
     (let e1 = e\<lparr> e_health := e_health e - damage \<rparr> in (e_health e1 \<le> 0, e1))"

subsection \<open>Projectile\<close>

record Projectile =
  p_x :: real
  p_y :: real
  p_target :: ref
  p_damage :: int
  p_speed :: real

text \<open>\<^verbatim>\<open>Projectile.__init__\<close>; the callers of the source never pass \<^verbatim>\<open>speed\<close>, so it is 8.0.\<close>

definition Projectile_init :: "real \<Rightarrow> real \<Rightarrow> ref \<Rightarrow> int \<Rightarrow> Projectile" where
  "Projectile_init x y target damage =
     \<lparr> p_x = x, p_y = y, p_target = target, p_damage = damage, p_speed = 8 \<rparr>"

text \<open>\<^verbatim>\<open>Projectile.move\<close> reads the target's current position through the reference.\<close>

definition Projectile_move :: "(ref \<Rightarrow> Enemy) \<Rightarrow> Projectile \<Rightarrow> error + (bool \<times> Projectile)" where
  "Projectile_move h p =
     (let dx = e_x (h (p_target p)) - p_x p;
          dy = e_y (h (p_target p)) - p_y p;
          distance = sqrt (dx\<^sup>2 + dy\<^sup>2)
      in
        if distance \<le> p_speed p then Inr (True, p)
        else if distance = 0 then Inl ZeroDivisionError
        else Inr (False, p\<lparr> p_x := p_x p + (dx / distance) * p_speed p,
                              p_y := p_y p + (dy / distance) * p_speed p \<rparr>))"

subsection \<open>Tower\<close>

record Tower =
  t_x :: int
  t_y :: int
  t_type :: TowerType
  t_level :: int
  t_range :: int
  t_damage :: int
  t_fire_rate :: int
  t_last_shot :: int
  t_target :: "ref option"
  t_radius :: int

definition Tower_get_range :: "TowerType \<Rightarrow> int \<Rightarrow> int" where
  "Tower_get_range ty level =
     (let base_range = (if ty = T_SNIPER then 150 else if ty = T_BASIC then 120 else 100)
      in base_range + (level - 1) * 20)"

definition Tower_get_damage :: "TowerType \<Rightarrow> int \<Rightarrow> int" where
  "Tower_get_damage ty level =
     (let base_damage = (if ty = T_SNIPER then 50 else if ty = T_BASIC then 30 else 20)
      in base_damage + (level - 1) * 15)"

fun Tower_get_fire_rate :: "TowerType \<Rightarrow> int" where
  "Tower_get_fire_rate T_BASIC = 30"
| "Tower_get_fire_rate T_SNIPER = 90"
| "Tower_get_fire_rate T_SPLASH = 60"

definition Tower_init :: "int \<Rightarrow> int \<Rightarrow> TowerType \<Rightarrow> Tower" where
  "Tower_init x y ty =
     \<lparr> t_x = x, t_y = y, t_type = ty, t_level = 1,
       t_range = Tower_get_range ty 1, t_damage = Tower_get_damage ty 1,
       t_fire_rate = Tower_get_fire_rate ty, t_last_shot = 0, t_target = None,
       t_radius = 15 \<rparr>"

definition Tower_upgrade :: "Tower \<Rightarrow> Tower" where
  "Tower_upgrade t =
     (if t_level t < 3 then
        let t1 = t\<lparr> t_level := t_level t + 1 \<rparr>;
            t2 = t1\<lparr> t_range := Tower_get_range (t_type t1) (t_level t1) \<rparr>
        in t2\<lparr> t_damage := Tower_get_damage (t_type t2) (t_level t2) \<rparr>
      else t)"

definition Tower_can_upgrade :: "Tower \<Rightarrow> bool" where
  "Tower_can_upgrade t = (t_level t < 3)"

text \<open>
  \<^verbatim>\<open>Tower.find_target\<close>: the loop carries \<^verbatim>\<open>closest\<close> and \<^verbatim>\<open>min_distance\<close>; the initial
  \<^verbatim>\<open>float('inf')\<close> is \<open>None\<close>, below which every distance lies.  \<open>Tower_distance\<close> is the
  distance the loop body computes for one enemy.
\<close>

definition Tower_distance :: "(ref \<Rightarrow> Enemy) \<Rightarrow> Tower \<Rightarrow> ref \<Rightarrow> real" where
  "Tower_distance h t r =
     (let dx = e_x (h r) - of_int (t_x t);
          dy = e_y (h r) - of_int (t_y t)
      in sqrt (dx\<^sup>2 + dy\<^sup>2))"

fun find_target_loop ::
  "(ref \<Rightarrow> Enemy) \<Rightarrow> Tower \<Rightarrow> ref list \<Rightarrow> ref option \<Rightarrow> real option \<Rightarrow> ref option" where
  "find_target_loop h t [] closest min_distance = closest"
| "find_target_loop h t (enemy # enemies) closest min_distance =
     (let distance = Tower_distance h t enemy in
        if distance \<le> of_int (t_range t) \<and>
           (case min_distance of None \<Rightarrow> True | Some m \<Rightarrow> distance < m)
        then find_target_loop h t enemies (Some enemy) (Some distance)
        else find_target_loop h t enemies closest min_distance)"

definition Tower_find_target :: "(ref \<Rightarrow> Enemy) \<Rightarrow> Tower \<Rightarrow> ref list \<Rightarrow> ref option" where
  "Tower_find_target h t enemies = find_target_loop h t enemies None None"

text \<open>
  \<^verbatim>\<open>Tower.shoot\<close>: an Enemy object is always truthy, so \<^verbatim>\<open>and self.target\<close> tests for
  \<^verbatim>\<open>None\<close>.  The result is the projectile, if any, and the mutated tower.
\<close>

definition Tower_shoot :: "Tower \<Rightarrow> int \<Rightarrow> Projectile option \<times> Tower" where
  "Tower_shoot t current_frame =
     (if current_frame - t_last_shot t \<ge> t_fire_rate t then
        (case t_target t of
           None \<Rightarrow> (None, t)
         | Some target \<Rightarrow>
             let t1 = t\<lparr> t_last_shot := current_frame \<rparr>
             in (Some (Projectile_init (of_int (t_x t1)) (of_int (t_y t1)) target (t_damage t1)), t1))
      else (None, t))"

subsection \<open>Wave\<close>

record Wave =
  w_wave_number :: int
  w_path :: path
  w_enemies_to_spawn :: "EnemyType list"
  w_spawn_timer :: int
  w_spawn_delay :: int
  w_complete :: bool

text \<open>
  \<^verbatim>\<open>Wave._generate_enemies\<close>.  \<^verbatim>\<open>random.shuffle\<close> belongs to the standard library: it is the
  parameter \<open>shuffle\<close>, of which the theorems assume only that it permutes its argument.
  \<^verbatim>\<open>[v] * n\<close> is the empty list for \<^verbatim>\<open>n \<le> 0\<close>, as \<^term>\<open>replicate (nat n) v\<close> is.
\<close>

definition Wave_generate_enemies ::
  "(EnemyType list \<Rightarrow> EnemyType list) \<Rightarrow> int \<Rightarrow> EnemyType list" where
  "Wave_generate_enemies shuffle wave_number =
     (let basic_count = min (5 + wave_number * 2) 20;
          enemies0 = replicate (nat basic_count) E_BASIC;
          enemies1 = (if wave_number \<ge> 2 then
                        let fast_count = min wave_number 10
                        in enemies0 @ replicate (nat fast_count) E_FAST
                      else enemies0);
          enemies2 = (if wave_number \<ge> 4 then
                        let tank_count = min ((wave_number - 3) div 2) 5
                        in enemies1 @ replicate (nat tank_count) E_TANK
                      else enemies1)
      in shuffle enemies2)"


text \<open>\<^verbatim>\<open>Wave.update\<close>: the spawned enemy, if any, and the mutated wave.\<close>

definition Wave_update :: "Wave \<Rightarrow> error + (Enemy option \<times> Wave)" where
  "Wave_update w =
     (case w_enemies_to_spawn w of
        [] \<Rightarrow> Inr (None, w\<lparr> w_complete := True \<rparr>)
      | enemy_type # rest \<Rightarrow>
          let w1 = w\<lparr> w_spawn_timer := w_spawn_timer w + 1 \<rparr> in
            if w_spawn_timer w1 \<ge> w_spawn_delay w1 then
              let w2 = w1\<lparr> w_spawn_timer := 0, w_enemies_to_spawn := rest \<rparr> in
                (case Enemy_init enemy_type (w_path w2) of
                   Inl err \<Rightarrow> Inl err
                 | Inr e \<Rightarrow> Inr (Some e, w2))
            else Inr (None, w1))"

subsection \<open>Game\<close>

record Game =
  g_state :: GameState
  g_frame_count :: int
  g_path :: path
  g_towers :: "ref list"
  g_enemies :: "ref list"
  g_projectiles :: "Projectile list"
  g_money :: int
  g_lives :: int
  g_current_wave :: int
  g_wave :: "Wave option"
  g_wave_active :: bool
  g_selected_tower :: "ref option"
  g_placing_tower :: bool
  enemy_heap :: "ref \<Rightarrow> Enemy"
  enemy_next :: ref
  tower_heap :: "ref \<Rightarrow> Tower"
  tower_next :: ref

definition game_path :: path where
  "game_path = [(0, 200), (200, 200), (200, 400), (400, 400),
                (400, 200), (600, 200), (600, 500), (800, 500),
                (800, 300), (1000, 300)]"


definition Game_reset_game :: "Game \<Rightarrow> Game" where
  "Game_reset_game g =
     g\<lparr> g_towers := [], g_enemies := [], g_projectiles := [],
        g_money := STARTING_MONEY, g_lives := STARTING_LIVES, g_current_wave := 0,
        g_wave := None, g_wave_active := False,
        g_selected_tower := None, g_placing_tower := False,
        g_frame_count := 0, g_state := PLAYING \<rparr>"




definition Game_get_tower_at_pos :: "Game \<Rightarrow> int \<Rightarrow> int \<Rightarrow> ref option" where
  "Game_get_tower_at_pos g x y =
     find (\<lambda>r. sqrt (of_int ((x - t_x (tower_heap g r))\<^sup>2 + (y - t_y (tower_heap g r))\<^sup>2))
                 \<le> of_int (t_radius (tower_heap g r))) (g_towers g)"

text \<open>\<^verbatim>\<open>Game.upgrade_tower\<close>; the argument is a reference to a Tower object.\<close>

definition Game_upgrade_tower :: "Game \<Rightarrow> ref \<Rightarrow> Game" where
  "Game_upgrade_tower g tower =
     (if g_money g \<ge> UPGRADE_COST \<and> Tower_can_upgrade (tower_heap g tower) then
        g\<lparr> tower_heap := (tower_heap g)(tower := Tower_upgrade (tower_heap g tower)),
           g_money := g_money g - UPGRADE_COST \<rparr>
      else g)"

subsection \<open>Game.update, phase by phase\<close>

text \<open>The wave step: spawn through the active wave, or detect that the wave is cleared.\<close>

definition update_wave :: "Game \<Rightarrow> error + Game" where
  "update_wave g =
     (case g_wave g of
        None \<Rightarrow> Inr g
      | Some w \<Rightarrow>
          if \<not> w_complete w then
            (case Wave_update w of
               Inl err \<Rightarrow> Inl err
             | Inr (None, w1) \<Rightarrow> Inr (g\<lparr> g_wave := Some w1 \<rparr>)
             | Inr (Some enemy, w1) \<Rightarrow>
                 Inr (g\<lparr> g_wave := Some w1,
                         enemy_heap := (enemy_heap g)(enemy_next g := enemy),
                         enemy_next := enemy_next g + 1,
                         g_enemies := g_enemies g @ [enemy_next g] \<rparr>))
          else if g_enemies g = [] then
            (if g_current_wave g \<ge> 10 then Inr (g\<lparr> g_state := VICTORY \<rparr>)
             else Inr (g\<lparr> g_wave_active := False \<rparr>))
          else Inr g)"

text \<open>
  The enemy loop runs over the snapshot \<^verbatim>\<open>self.enemies[:]\<close> (the first argument) and removes
  from the live list.  Nothing leaves the loop when the state becomes \<^verbatim>\<open>GAME_OVER\<close>.
\<close>

fun update_enemies :: "ref list \<Rightarrow> Game \<Rightarrow> error + Game" where
  "update_enemies [] g = Inr g"
| "update_enemies (enemy # rest) g =
     (case Enemy_move (enemy_heap g enemy) of
        Inl err \<Rightarrow> Inl err
      | Inr (reached, e1) \<Rightarrow>
          let g1 = g\<lparr> enemy_heap := (enemy_heap g)(enemy := e1) \<rparr> in
            if reached then
              let g2 = g1\<lparr> g_lives := g_lives g1 - 1 \<rparr>;
                  g3 = g2\<lparr> g_enemies := remove1 enemy (g_enemies g2) \<rparr>;
                  g4 = (if g_lives g3 \<le> 0 then g3\<lparr> g_state := GAME_OVER \<rparr> else g3)
              in update_enemies rest g4
            else update_enemies rest g1)"

text \<open>The tower loop: retarget against the live list, then try to shoot.\<close>

fun update_towers :: "ref list \<Rightarrow> Game \<Rightarrow> Game" where
  "update_towers [] g = g"
| "update_towers (tower # rest) g =
     (let t1 = (tower_heap g tower)
                 \<lparr> t_target := Tower_find_target (enemy_heap g) (tower_heap g tower) (g_enemies g) \<rparr>;
          (projectile, t2) = Tower_shoot t1 (g_frame_count g);
          g1 = g\<lparr> tower_heap := (tower_heap g)(tower := t2) \<rparr>;
          g2 = (case projectile of
                  None \<Rightarrow> g1
                | Some p \<Rightarrow> g1\<lparr> g_projectiles := g_projectiles g1 @ [p] \<rparr>)
      in update_towers rest g2)"

text \<open>
  The projectile loop runs over the snapshot \<^verbatim>\<open>self.projectiles[:]\<close>.  Each Projectile object
  stands once in the list, so \<^verbatim>\<open>self.projectiles.remove(projectile)\<close> drops exactly the
  element being visited: the loop keeps or drops each element in order.  The model starts
  from an empty \<open>g_projectiles\<close> and appends the (moved) projectiles that are kept, so that
  Python's list is \<open>g_projectiles\<close> followed by the part of the snapshot still to visit.
  \<open>resolve_hit\<close> is the body of \<^verbatim>\<open>if projectile.target in self.enemies\<close>.
\<close>

definition resolve_hit :: "Game \<Rightarrow> Projectile \<Rightarrow> Game" where
  "resolve_hit g p =
     (let (killed, e1) = Enemy_take_damage (enemy_heap g (p_target p)) (p_damage p);
          g1 = g\<lparr> enemy_heap := (enemy_heap g)(p_target p := e1) \<rparr>
      in if killed then
           let g2 = g1\<lparr> g_money := g_money g1 + e_reward (enemy_heap g1 (p_target p)) \<rparr>
           in g2\<lparr> g_enemies := remove1 (p_target p) (g_enemies g2) \<rparr>
         else g1)"

fun update_projectiles :: "Projectile list \<Rightarrow> Game \<Rightarrow> error + Game" where
  "update_projectiles [] g = Inr g"
| "update_projectiles (p # rest) g =
     (case Projectile_move (enemy_heap g) p of
        Inl err \<Rightarrow> Inl err
      | Inr (hit, p1) \<Rightarrow>
          if hit \<or> p_target p1 \<notin> set (g_enemies g) then
            (if p_target p1 \<in> set (g_enemies g)
             then update_projectiles rest (resolve_hit g p1)
             else update_projectiles rest g)
          else update_projectiles rest (g\<lparr> g_projectiles := g_projectiles g @ [p1] \<rparr>))"

definition Game_update :: "Game \<Rightarrow> error + Game" where
  "Game_update g =
     (if g_state g \<noteq> PLAYING then Inr g
      else
        let g0 = g\<lparr> g_frame_count := g_frame_count g + 1 \<rparr> in
          case update_wave g0 of
            Inl err \<Rightarrow> Inl err
          | Inr g1 \<Rightarrow>
              (case update_enemies (g_enemies g1) g1 of
                 Inl err \<Rightarrow> Inl err
               | Inr g2 \<Rightarrow>
                   let g3 = update_towers (g_towers g2) g2
                   in update_projectiles (g_projectiles g3) (g3\<lparr> g_projectiles := [] \<rparr>)))"

subsection \<open>Click handlers of the end screen and the menu\<close>

definition Game_handle_menu_click :: "Game \<Rightarrow> int \<times> int \<Rightarrow> Game" where
  "Game_handle_menu_click g pos =
     (let (x, y) = pos in
        if SCREEN_WIDTH div 2 - 100 \<le> x \<and> x \<le> SCREEN_WIDTH div 2 + 100 \<and> 300 \<le> y \<and> y \<le> 350
        then Game_reset_game g else g)"

definition Game_handle_end_screen_click :: "Game \<Rightarrow> int \<times> int \<Rightarrow> Game" where
  "Game_handle_end_screen_click g pos =
     (let (x, y) = pos in
        if SCREEN_WIDTH div 2 - 100 \<le> x \<and> x \<le> SCREEN_WIDTH div 2 + 100 \<and> 350 \<le> y \<and> y \<le> 400
        then Game_reset_game g else g)"

section \<open>Definitions used by the statements\<close>

subsection \<open>The loop of \<^verbatim>\<open>find_target\<close> as a fold, and what it maintains\<close>

text \<open>
  \<open>ft_step\<close> is one pass of the loop body over the pair (\<^verbatim>\<open>closest\<close>, \<^verbatim>\<open>min_distance\<close>).
  \<open>ft_inv\<close> says what the pair holds after the enemies \<open>es\<close> have been visited: nothing when
  no enemy is within range, and otherwise the first enemy, in the order of \<open>es\<close>, whose
  distance is least among those within range.
\<close>

definition ft_step ::
  "(ref \<Rightarrow> Enemy) \<Rightarrow> Tower \<Rightarrow> ref option \<times> real option \<Rightarrow> ref \<Rightarrow> ref option \<times> real option" where
  "ft_step h t acc enemy =
     (let distance = Tower_distance h t enemy in
        if distance \<le> of_int (t_range t) \<and>
           (case snd acc of None \<Rightarrow> True | Some m \<Rightarrow> distance < m)
        then (Some enemy, Some distance) else acc)"

definition ft_inv ::
  "(ref \<Rightarrow> Enemy) \<Rightarrow> Tower \<Rightarrow> ref list \<Rightarrow> ref option \<times> real option \<Rightarrow> bool" where
  "ft_inv h t es acc =
     (case fst acc of
        None \<Rightarrow> snd acc = None
                 \<and> (\<forall>j < length es. \<not> Tower_distance h t (es ! j) \<le> of_int (t_range t))
      | Some r \<Rightarrow>
          snd acc = Some (Tower_distance h t r) \<and>
          (\<exists>i < length es. es ! i = r
             \<and> Tower_distance h t r \<le> of_int (t_range t)
             \<and> (\<forall>j < length es. Tower_distance h t (es ! j) \<le> of_int (t_range t)
                    \<longrightarrow> Tower_distance h t r \<le> Tower_distance h t (es ! j))
             \<and> (\<forall>j < i. Tower_distance h t (es ! j) \<le> of_int (t_range t)
                    \<longrightarrow> Tower_distance h t r < Tower_distance h t (es ! j))))"

subsection \<open>Concrete states\<close>

text \<open>
  \<open>blank_enemy\<close> and \<open>blank_tower\<close> fill the heaps where no object has been created.
  \<open>fresh_game\<close> is a new game after the START click.
\<close>

definition blank_enemy :: Enemy where
  "blank_enemy = \<lparr> e_type = E_BASIC, e_path = game_path, e_path_index = 0, e_x = 0, e_y = 200,
       e_health = 100, e_max_health = 100, e_speed = 2, e_reward = 20 \<rparr>"

definition blank_tower :: Tower where
  "blank_tower = Tower_init 0 0 T_BASIC"


text \<open>
  \<open>demo\<close> is a state in the middle of a wave, one tick before the game is lost: one life
  left; a Basic enemy (reference 0) and a Fast enemy (1) each within one step of the last
  waypoint; a wounded Tank (2) and a Basic enemy (3) on their way; one tower at (101, 300);
  three projectiles in flight, aimed at the Tank, at an enemy that has left the live list
  (4), and at enemy 3.  \<open>demo_after\<close> is the state after one \<^verbatim>\<open>update\<close>.
\<close>

definition demo_enemies :: "ref \<Rightarrow> Enemy" where
  "demo_enemies = (\<lambda>_. blank_enemy)
     (0 := blank_enemy\<lparr> e_path_index := 8, e_x := 998, e_y := 300 \<rparr>,
      1 := \<lparr> e_type = E_FAST, e_path = game_path, e_path_index = 8, e_x = 996, e_y = 300,
             e_health = 60, e_max_health = 60, e_speed = 4, e_reward = 15 \<rparr>,
      2 := \<lparr> e_type = E_TANK, e_path = game_path, e_path_index = 0, e_x = 100, e_y = 200,
             e_health = 30, e_max_health = 250, e_speed = 1, e_reward = 50 \<rparr>,
      3 := blank_enemy\<lparr> e_path_index := 2, e_x := 300, e_y := 400 \<rparr>,
      4 := blank_enemy\<lparr> e_path_index := 5, e_x := 600, e_y := 300, e_health := 0 \<rparr>)"

definition demo :: Game where
  "demo = \<lparr> g_state = PLAYING, g_frame_count = 100, g_path = game_path,
       g_towers = [0], g_enemies = [0, 1, 2, 3],
       g_projectiles =
         [\<lparr> p_x = 101, p_y = 205, p_target = 2, p_damage = 30, p_speed = 8 \<rparr>,
          \<lparr> p_x = 600, p_y = 500, p_target = 4, p_damage = 30, p_speed = 8 \<rparr>,
          \<lparr> p_x = 302, p_y = 300, p_target = 3, p_damage = 30, p_speed = 8 \<rparr>],
       g_money = 0, g_lives = 1, g_current_wave = 3,
       g_wave = None, g_wave_active = True,
       g_selected_tower = None, g_placing_tower = False,
       enemy_heap = demo_enemies, enemy_next = 5,
       tower_heap = (\<lambda>_. blank_tower)(0 := Tower_init 101 300 T_BASIC), tower_next = 1 \<rparr>"

definition demo_after :: Game where
  "demo_after = (case Game_update demo of Inr g \<Rightarrow> g | Inl _ \<Rightarrow> demo)"

text \<open>
  Four enemies around the tower \<open>blank_tower\<close> at (0, 0), whose range is 120: enemy 0 out of
  range, enemies 1 and 2 both at distance 100, enemy 3 at distance 50.
\<close>

definition ring_enemies :: "ref \<Rightarrow> Enemy" where
  "ring_enemies = (\<lambda>_. blank_enemy)
     (0 := blank_enemy\<lparr> e_x := 300, e_y := 0 \<rparr>,
      1 := blank_enemy\<lparr> e_x := 100, e_y := 0 \<rparr>,
      2 := blank_enemy\<lparr> e_x := 0, e_y := 100 \<rparr>,
      3 := blank_enemy\<lparr> e_x := 30, e_y := 40 \<rparr>)"


subsection \<open>Outcomes of single moves\<close>

definition Enemy_reaches :: "Enemy \<Rightarrow> bool" where
  "Enemy_reaches e = (case Enemy_move e of Inr (reached, _) \<Rightarrow> reached | Inl _ \<Rightarrow> False)"

definition Projectile_arrives :: "(ref \<Rightarrow> Enemy) \<Rightarrow> Projectile \<Rightarrow> bool" where
  "Projectile_arrives h p = (case Projectile_move h p of Inr (hit, _) \<Rightarrow> hit | Inl _ \<Rightarrow> False)"

definition Projectile_moved :: "(ref \<Rightarrow> Enemy) \<Rightarrow> Projectile \<Rightarrow> Projectile" where
  "Projectile_moved h p = (case Projectile_move h p of Inr (_, p1) \<Rightarrow> p1 | Inl _ \<Rightarrow> p)"

subsection \<open>Emission of a projectile by a tower during a tick\<close>



subsection \<open>Well-formed and reachable game states\<close>





definition Enemy_moved :: "Enemy \<Rightarrow> Enemy" where
  "Enemy_moved e = (case Enemy_move e of Inr (_, e') \<Rightarrow> e' | Inl _ \<Rightarrow> e)"

subsection \<open>Runs of ticks, and a run in which a tower fires twice\<close>



text \<open>
  The tick from \<open>demo\<close>, phase by phase: \<open>demo_moved\<close> is the state after the wave and the
  enemy loop, \<open>demo_aimed\<close> the state after the tower loop.
\<close>

definition demo_moved :: Game where
  "demo_moved =
     (case update_wave (demo\<lparr> g_frame_count := g_frame_count demo + 1 \<rparr>) of
        Inl _ \<Rightarrow> demo
      | Inr g1 \<Rightarrow> (case update_enemies (g_enemies g1) g1 of Inl _ \<Rightarrow> demo | Inr g2 \<Rightarrow> g2))"

definition demo_aimed :: Game where
  "demo_aimed = update_towers (g_towers demo_moved) demo_moved"


section \<open>Auxiliary lemmas\<close>

subsection \<open>Evaluation of square roots and of the path\<close>

lemma sqrt_le_num: "0 \<le> b \<Longrightarrow> (sqrt a \<le> b) = (a \<le> b\<^sup>2)"
  by (metis abs_of_nonneg real_sqrt_abs real_sqrt_le_iff)

lemma sqrt_less_num: "0 \<le> b \<Longrightarrow> (sqrt a < b) = (a < b\<^sup>2)"
  by (metis abs_of_nonneg real_sqrt_abs real_sqrt_less_iff)

lemma sqrt_values:
  "sqrt 10000 = 100" "sqrt 40000 = 200" "sqrt 16 = 4" "sqrt 25 = 5" "sqrt 2500 = 50"
  "sqrt 90000 = 300"
  using real_sqrt_abs[of 100] real_sqrt_abs[of 200] real_sqrt_abs[of 4] real_sqrt_abs[of 5]
    real_sqrt_abs[of 50] real_sqrt_abs[of 300]
  by simp_all

lemma game_path_nth:
  "length game_path = 10"
  "game_path ! 0 = (0, 200)" "game_path ! Suc 0 = (200, 200)" "game_path ! 2 = (200, 400)"
  "game_path ! 3 = (400, 400)" "game_path ! 4 = (400, 200)" "game_path ! 5 = (600, 200)"
  "game_path ! 6 = (600, 500)" "game_path ! 7 = (800, 500)" "game_path ! 8 = (800, 300)"
  "game_path ! 9 = (1000, 300)"
  by (simp_all add: game_path_def)

subsection \<open>The target loop\<close>

lemma find_target_no_target [simp]:
  "find_target_loop h (t\<lparr>t_target := x\<rparr>) es c m = find_target_loop h t es c m"
  by (induction es arbitrary: c m) (simp_all add: Tower_distance_def Let_def)

lemma find_target_loop_foldl:
  "find_target_loop h t es c m = fst (foldl (ft_step h t) (c, m) es)"
  by (induction es arbitrary: c m) (simp_all add: ft_step_def Let_def)

lemma ft_inv_step:
  assumes "ft_inv h t es acc"
  shows "ft_inv h t (es @ [e]) (ft_step h t acc e)"
proof (cases "fst acc")
  case None
  with assms show ?thesis
    by (cases acc) (auto simp: ft_inv_def ft_step_def Let_def nth_append less_Suc_eq)
next
  case (Some r)
  with assms obtain i where i: "i < length es" "es ! i = r"
      "Tower_distance h t r \<le> of_int (t_range t)"
      "\<forall>j < length es. Tower_distance h t (es ! j) \<le> of_int (t_range t)
                    \<longrightarrow> Tower_distance h t r \<le> Tower_distance h t (es ! j)"
      "\<forall>j < i. Tower_distance h t (es ! j) \<le> of_int (t_range t)
                    \<longrightarrow> Tower_distance h t r < Tower_distance h t (es ! j)"
      and m: "snd acc = Some (Tower_distance h t r)"
    by (auto simp: ft_inv_def)
  show ?thesis
  proof (cases "Tower_distance h t e \<le> of_int (t_range t) \<and> Tower_distance h t e < Tower_distance h t r")
    case True
    then have st: "ft_step h t acc e = (Some e, Some (Tower_distance h t e))"
      using m by (simp add: ft_step_def Let_def)
    have "\<forall>j < length (es @ [e]). Tower_distance h t ((es @ [e]) ! j) \<le> of_int (t_range t)
            \<longrightarrow> Tower_distance h t e \<le> Tower_distance h t ((es @ [e]) ! j)"
      using True i(4) by (auto simp: nth_append less_Suc_eq) 
    moreover have "\<forall>j < length es. Tower_distance h t ((es @ [e]) ! j) \<le> of_int (t_range t)
            \<longrightarrow> Tower_distance h t e < Tower_distance h t ((es @ [e]) ! j)"
      using True i(4) by (auto simp: nth_append) 
    ultimately show ?thesis
      unfolding ft_inv_def st using True
      by (auto intro!: exI[of _ "length es"])
  next
    case False
    then have st: "ft_step h t acc e = acc"
      using m by (auto simp add: ft_step_def Let_def)
    have "\<forall>j < length (es @ [e]). Tower_distance h t ((es @ [e]) ! j) \<le> of_int (t_range t)
            \<longrightarrow> Tower_distance h t r \<le> Tower_distance h t ((es @ [e]) ! j)"
      using False i(4) by (auto simp: nth_append less_Suc_eq)
    moreover have "\<forall>j < i. Tower_distance h t ((es @ [e]) ! j) \<le> of_int (t_range t)
            \<longrightarrow> Tower_distance h t r < Tower_distance h t ((es @ [e]) ! j)"
      using i(1,5) by (auto simp: nth_append)
    moreover have "i < length (es @ [e])" "(es @ [e]) ! i = r"
      using i(1,2) by (auto simp: nth_append)
    ultimately show ?thesis
      unfolding ft_inv_def st using Some m i(3) by auto
  qed
qed

lemma ft_inv_foldl: "ft_inv h t es (foldl (ft_step h t) (None, None) es)"
proof (induction es rule: rev_induct)
  case Nil
  show ?case by (simp add: ft_inv_def)
next
  case (snoc e es)
  then show ?case by (simp add: ft_inv_step)
qed

lemma find_target_spec:
  "ft_inv h t es (Tower_find_target h t es, snd (foldl (ft_step h t) (None, None) es))"
  using ft_inv_foldl[of h t es] by (simp add: Tower_find_target_def find_target_loop_foldl)

subsection \<open>What each phase of the tick leaves alone\<close>

lemma Tower_find_target_cong:
  "t_x t = t_x t' \<Longrightarrow> t_y t = t_y t' \<Longrightarrow> t_range t = t_range t' \<Longrightarrow>
   find_target_loop h t es c m = find_target_loop h t' es c m"
  by (induction es arbitrary: c m) (simp_all add: Tower_distance_def Let_def)

lemma Tower_shoot_geometry:
  "t_x (snd (Tower_shoot t f)) = t_x t \<and> t_y (snd (Tower_shoot t f)) = t_y t
   \<and> t_range (snd (Tower_shoot t f)) = t_range t \<and> t_target (snd (Tower_shoot t f)) = t_target t"
  by (simp add: Tower_shoot_def Let_def split: option.splits)

lemma update_towers_frame:
  "enemy_heap (update_towers ts g) = enemy_heap g
   \<and> g_enemies (update_towers ts g) = g_enemies g
   \<and> g_frame_count (update_towers ts g) = g_frame_count g
   \<and> g_state (update_towers ts g) = g_state g
   \<and> g_money (update_towers ts g) = g_money g
   \<and> g_lives (update_towers ts g) = g_lives g
   \<and> g_towers (update_towers ts g) = g_towers g
   \<and> g_wave (update_towers ts g) = g_wave g
   \<and> g_current_wave (update_towers ts g) = g_current_wave g
   \<and> enemy_next (update_towers ts g) = enemy_next g
   \<and> tower_next (update_towers ts g) = tower_next g"
  by (induction ts arbitrary: g) (simp_all add: Let_def split: prod.splits option.splits)

lemma update_towers_other:
  "r \<notin> set ts \<Longrightarrow> tower_heap (update_towers ts g) r = tower_heap g r"
  by (induction ts arbitrary: g) (auto simp: Let_def split: prod.splits option.splits)

lemma update_towers_geometry:
  "t_x (tower_heap (update_towers ts g) r) = t_x (tower_heap g r)
   \<and> t_y (tower_heap (update_towers ts g) r) = t_y (tower_heap g r)
   \<and> t_range (tower_heap (update_towers ts g) r) = t_range (tower_heap g r)"
proof (induction ts arbitrary: g)
  case Nil
  show ?case by simp
next
  case (Cons a ts)
  obtain po t2 where sh: "Tower_shoot ((tower_heap g a)
         \<lparr>t_target := Tower_find_target (enemy_heap g) (tower_heap g a) (g_enemies g)\<rparr>) (g_frame_count g) = (po, t2)"
    by (cases "Tower_shoot ((tower_heap g a)
         \<lparr>t_target := Tower_find_target (enemy_heap g) (tower_heap g a) (g_enemies g)\<rparr>) (g_frame_count g)")
  have geo: "t_x t2 = t_x (tower_heap g a) \<and> t_y t2 = t_y (tower_heap g a) \<and> t_range t2 = t_range (tower_heap g a)"
    using Tower_shoot_geometry[of "(tower_heap g a)
         \<lparr>t_target := Tower_find_target (enemy_heap g) (tower_heap g a) (g_enemies g)\<rparr>" "g_frame_count g"] sh
    by simp
  show ?case
    using geo by (cases po) (simp_all add: sh Let_def Cons.IH)
qed

lemma update_towers_target:
  "r \<in> set ts \<Longrightarrow>
   t_target (tower_heap (update_towers ts g) r)
     = Tower_find_target (enemy_heap g) (tower_heap g r) (g_enemies g)"
proof (induction ts arbitrary: g)
  case Nil
  then show ?case by simp
next
  case (Cons a ts)
  let ?t1 = "(tower_heap g a)
         \<lparr>t_target := Tower_find_target (enemy_heap g) (tower_heap g a) (g_enemies g)\<rparr>"
  obtain po t2 where sh: "Tower_shoot ?t1 (g_frame_count g) = (po, t2)"
    by (cases "Tower_shoot ?t1 (g_frame_count g)")
  have geo: "t_x t2 = t_x (tower_heap g a) \<and> t_y t2 = t_y (tower_heap g a)
             \<and> t_range t2 = t_range (tower_heap g a)
             \<and> t_target t2 = Tower_find_target (enemy_heap g) (tower_heap g a) (g_enemies g)"
    using Tower_shoot_geometry[of ?t1 "g_frame_count g"] sh by simp
  define g2 where "g2 = (case po of None \<Rightarrow> g\<lparr>tower_heap := (tower_heap g)(a := t2)\<rparr>
      | Some p \<Rightarrow> g\<lparr>tower_heap := (tower_heap g)(a := t2), g_projectiles := g_projectiles g @ [p]\<rparr>)"
  have step: "update_towers (a # ts) g = update_towers ts g2"
    by (cases po) (simp_all add: sh Let_def g2_def)
  have g2: "enemy_heap g2 = enemy_heap g" "g_enemies g2 = g_enemies g"
       "tower_heap g2 = (tower_heap g)(a := t2)"
    by (cases po; simp add: g2_def)+
  show ?case
  proof (cases "r \<in> set ts")
    case True
    have "t_target (tower_heap (update_towers ts g2) r)
          = Tower_find_target (enemy_heap g2) (tower_heap g2 r) (g_enemies g2)"
      using Cons.IH[OF True] .
    also have "\<dots> = Tower_find_target (enemy_heap g) (tower_heap g r) (g_enemies g)"
      unfolding Tower_find_target_def g2 using geo
      by (intro Tower_find_target_cong) auto
    finally show ?thesis unfolding step .
  next
    case False
    with Cons.prems have ra: "r = a" by simp
    show ?thesis
      unfolding step using False geo by (simp add: update_towers_other g2 ra)
  qed
qed

lemma update_wave_frame:
  "update_wave g = Inr g' \<Longrightarrow>
     tower_heap g' = tower_heap g \<and> g_towers g' = g_towers g
   \<and> g_projectiles g' = g_projectiles g \<and> g_money g' = g_money g
   \<and> g_lives g' = g_lives g \<and> g_frame_count g' = g_frame_count g
   \<and> tower_next g' = tower_next g \<and> g_path g' = g_path g
   \<and> g_current_wave g' = g_current_wave g"
  by (auto simp: update_wave_def split: option.splits if_splits sum.splits prod.splits)

lemma update_enemies_frame:
  "update_enemies es g = Inr g' \<Longrightarrow>
     tower_heap g' = tower_heap g \<and> g_towers g' = g_towers g
   \<and> g_projectiles g' = g_projectiles g \<and> g_money g' = g_money g
   \<and> g_frame_count g' = g_frame_count g \<and> g_wave g' = g_wave g
   \<and> enemy_next g' = enemy_next g \<and> tower_next g' = tower_next g
   \<and> g_path g' = g_path g \<and> g_current_wave g' = g_current_wave g
   \<and> g_lives g' \<le> g_lives g \<and> set (g_enemies g') \<subseteq> set (g_enemies g)"
proof (induction es arbitrary: g)
  case Nil
  then show ?case by simp
next
  case (Cons a es)
  from Cons.prems obtain reached e1 where mv: "Enemy_move (enemy_heap g a) = Inr (reached, e1)"
    by (auto split: sum.splits)
  show ?case
  proof (cases reached)
    case True
    let ?g4 = "(if g_lives g - 1 \<le> 0
         then g\<lparr>enemy_heap := (enemy_heap g)(a := e1), g_lives := g_lives g - 1,
                g_enemies := remove1 a (g_enemies g), g_state := GAME_OVER\<rparr>
         else g\<lparr>enemy_heap := (enemy_heap g)(a := e1), g_lives := g_lives g - 1,
                g_enemies := remove1 a (g_enemies g)\<rparr>)"
    have "update_enemies es ?g4 = Inr g'"
      using Cons.prems mv True by (simp add: Let_def split: if_splits)
    from Cons.IH[OF this] show ?thesis
      using set_remove1_subset[of a "g_enemies g"] by (auto split: if_splits)
  next
    case False
    have "update_enemies es (g\<lparr>enemy_heap := (enemy_heap g)(a := e1)\<rparr>) = Inr g'"
      using Cons.prems mv False by (simp add: Let_def)
    from Cons.IH[OF this] show ?thesis by simp
  qed
qed

lemma resolve_hit_frame:
  "tower_heap (resolve_hit g p) = tower_heap g \<and> g_towers (resolve_hit g p) = g_towers g
   \<and> g_lives (resolve_hit g p) = g_lives g \<and> g_state (resolve_hit g p) = g_state g
   \<and> g_frame_count (resolve_hit g p) = g_frame_count g \<and> g_wave (resolve_hit g p) = g_wave g
   \<and> g_projectiles (resolve_hit g p) = g_projectiles g
   \<and> enemy_next (resolve_hit g p) = enemy_next g \<and> tower_next (resolve_hit g p) = tower_next g
   \<and> g_path (resolve_hit g p) = g_path g \<and> g_current_wave (resolve_hit g p) = g_current_wave g
   \<and> g_wave_active (resolve_hit g p) = g_wave_active g
   \<and> set (g_enemies (resolve_hit g p)) \<subseteq> set (g_enemies g)
   \<and> (\<forall>r. r \<noteq> p_target p \<longrightarrow> enemy_heap (resolve_hit g p) r = enemy_heap g r)"
  using set_remove1_subset[of "p_target p" "g_enemies g"]
  by (auto simp: resolve_hit_def Enemy_take_damage_def Let_def)

lemma Projectile_move_target:
  "Projectile_move h p = Inr (hit, p1) \<Longrightarrow> p_target p1 = p_target p \<and> p_speed p1 = p_speed p"
  by (auto simp: Projectile_move_def Let_def split: if_splits)

lemma Projectile_move_total:
  "0 \<le> p_speed p \<Longrightarrow> \<exists>hit p1. Projectile_move h p = Inr (hit, p1)"
  by (auto simp: Projectile_move_def Let_def)

lemma update_projectiles_frame:
  "update_projectiles ps g = Inr g' \<Longrightarrow>
     tower_heap g' = tower_heap g \<and> g_towers g' = g_towers g
   \<and> g_lives g' = g_lives g \<and> g_state g' = g_state g
   \<and> g_frame_count g' = g_frame_count g \<and> g_wave g' = g_wave g
   \<and> enemy_next g' = enemy_next g \<and> tower_next g' = tower_next g
   \<and> g_path g' = g_path g \<and> g_current_wave g' = g_current_wave g
   \<and> g_wave_active g' = g_wave_active g
   \<and> set (g_enemies g') \<subseteq> set (g_enemies g)"
proof (induction ps arbitrary: g)
  case Nil
  then show ?case by simp
next
  case (Cons p ps)
  from Cons.prems obtain hit p1 where mv: "Projectile_move (enemy_heap g) p = Inr (hit, p1)"
    by (auto split: sum.splits)
  consider (hitlive) "p_target p1 \<in> set (g_enemies g)" "hit"
    | (dead) "p_target p1 \<notin> set (g_enemies g)"
    | (fly) "p_target p1 \<in> set (g_enemies g)" "\<not> hit" by blast
  then show ?case
  proof cases
    case hitlive
    then have "update_projectiles ps (resolve_hit g p1) = Inr g'"
      using Cons.prems mv by simp
    from Cons.IH[OF this] show ?thesis
      using resolve_hit_frame[of g p1] by auto
  next
    case dead
    then have "update_projectiles ps g = Inr g'"
      using Cons.prems mv by simp
    from Cons.IH[OF this] show ?thesis .
  next
    case fly
    then have "update_projectiles ps (g\<lparr>g_projectiles := g_projectiles g @ [p1]\<rparr>) = Inr g'"
      using Cons.prems mv by simp
    from Cons.IH[OF this] show ?thesis by simp
  qed
qed

subsection \<open>The projectile loop\<close>

lemma update_projectiles_step_dead:
  assumes "p_target p \<notin> set (g_enemies g)" "0 \<le> p_speed p"
  shows "update_projectiles (p # ps) g = update_projectiles ps g"
proof -
  from Projectile_move_total[OF assms(2), of "enemy_heap g"] obtain hit p1
    where mv: "Projectile_move (enemy_heap g) p = Inr (hit, p1)" by blast
  with Projectile_move_target[OF mv] assms(1) show ?thesis by simp
qed

lemma update_projectiles_total:
  "\<forall>p \<in> set ps. 0 \<le> p_speed p \<Longrightarrow> \<exists>g'. update_projectiles ps g = Inr g'"
proof (induction ps arbitrary: g)
  case Nil
  show ?case by simp
next
  case (Cons p ps)
  then have sp: "0 \<le> p_speed p" and rest: "\<forall>p \<in> set ps. 0 \<le> p_speed p" by simp_all
  from Projectile_move_total[OF sp, of "enemy_heap g"] obtain hit p1
    where mv: "Projectile_move (enemy_heap g) p = Inr (hit, p1)" by blast
  show ?case
    using Cons.IH[OF rest] by (simp add: mv)
qed

lemma update_projectiles_drop:
  assumes "p_target p \<notin> set (g_enemies g)" "0 \<le> p_speed p"
  shows "update_projectiles (ps1 @ p # ps2) g = update_projectiles (ps1 @ ps2) g"
  using assms(1)
proof (induction ps1 arbitrary: g)
  case Nil
  then show ?case using update_projectiles_step_dead[OF _ assms(2)] by simp
next
  case (Cons a ps1)
  show ?case
  proof (cases "Projectile_move (enemy_heap g) a")
    case (Inl err)
    then show ?thesis by simp
  next
    case (Inr res)
    obtain hit a1 where res: "res = (hit, a1)" by (cases res)
    have sub: "p_target p \<notin> set (g_enemies (resolve_hit g a1))"
      using Cons.prems resolve_hit_frame[of g a1] by auto
    show ?thesis
      using Cons.IH[OF Cons.prems] Cons.IH[OF sub]
        Cons.IH[of "g\<lparr>g_projectiles := g_projectiles g @ [a1]\<rparr>"] Cons.prems
      by (simp add: Inr res)
  qed
qed

lemma update_projectiles_kept:
  "update_projectiles ps g = Inr g' \<Longrightarrow> q \<in> set (g_projectiles g') \<Longrightarrow>
   q \<in> set (g_projectiles g) \<or> p_target q \<in> set (g_enemies g)"
proof (induction ps arbitrary: g)
  case Nil
  then show ?case by simp
next
  case (Cons p ps)
  from Cons.prems(1) obtain hit p1 where mv: "Projectile_move (enemy_heap g) p = Inr (hit, p1)"
    by (auto split: sum.splits)
  consider (hitlive) "p_target p1 \<in> set (g_enemies g)" "hit"
    | (dead) "p_target p1 \<notin> set (g_enemies g)"
    | (fly) "p_target p1 \<in> set (g_enemies g)" "\<not> hit" by blast
  then show ?case
  proof cases
    case hitlive
    then have "update_projectiles ps (resolve_hit g p1) = Inr g'"
      using Cons.prems mv by simp
    from Cons.IH[OF this Cons.prems(2)] show ?thesis
      using resolve_hit_frame[of g p1] by auto
  next
    case dead
    then have "update_projectiles ps g = Inr g'"
      using Cons.prems mv by simp
    from Cons.IH[OF this Cons.prems(2)] show ?thesis .
  next
    case fly
    then have "update_projectiles ps (g\<lparr>g_projectiles := g_projectiles g @ [p1]\<rparr>) = Inr g'"
      using Cons.prems mv by simp
    from Cons.IH[OF this Cons.prems(2)] show ?thesis using fly by auto
  qed
qed

lemma update_projectiles_heap:
  "update_projectiles ps g = Inr g' \<Longrightarrow>
   r \<notin> set (g_enemies g) \<or> r \<notin> p_target ` set ps \<Longrightarrow> enemy_heap g' r = enemy_heap g r"
proof (induction ps arbitrary: g)
  case Nil
  then show ?case by simp
next
  case (Cons p ps)
  from Cons.prems(1) obtain hit p1 where mv: "Projectile_move (enemy_heap g) p = Inr (hit, p1)"
    by (auto split: sum.splits)
  have tg: "p_target p1 = p_target p" using Projectile_move_target[OF mv] by simp
  consider (hitlive) "p_target p1 \<in> set (g_enemies g)" "hit"
    | (dead) "p_target p1 \<notin> set (g_enemies g)"
    | (fly) "p_target p1 \<in> set (g_enemies g)" "\<not> hit" by blast
  then show ?case
  proof cases
    case hitlive
    then have run: "update_projectiles ps (resolve_hit g p1) = Inr g'"
      using Cons.prems mv by simp
    have ne: "r \<noteq> p_target p1" using Cons.prems(2) hitlive(1) tg by auto
    have "r \<notin> set (g_enemies (resolve_hit g p1)) \<or> r \<notin> p_target ` set ps"
      using Cons.prems(2) resolve_hit_frame[of g p1] by auto
    from Cons.IH[OF run this] show ?thesis
      using resolve_hit_frame[of g p1] ne by simp
  next
    case dead
    then have "update_projectiles ps g = Inr g'"
      using Cons.prems mv by simp
    from Cons.IH[OF this] Cons.prems(2) show ?thesis by auto
  next
    case fly
    then have "update_projectiles ps (g\<lparr>g_projectiles := g_projectiles g @ [p1]\<rparr>) = Inr g'"
      using Cons.prems mv by simp
    from Cons.IH[OF this] Cons.prems(2) show ?thesis by auto
  qed
qed

lemma update_projectiles_all_dead:
  "\<forall>p \<in> set ps. 0 \<le> p_speed p \<and> p_target p \<notin> set (g_enemies g) \<Longrightarrow>
   update_projectiles ps g = Inr g"
proof (induction ps)
  case Nil
  show ?case by simp
next
  case (Cons p ps)
  then have "update_projectiles (p # ps) g = update_projectiles ps g"
    by (intro update_projectiles_step_dead) simp_all
  with Cons show ?case by simp
qed

lemma update_projectiles_money:
  "update_projectiles ps g = Inr g' \<Longrightarrow>
   length (g_enemies g') \<le> length (g_enemies g)
   \<and> (length (g_enemies g') = length (g_enemies g) \<longrightarrow> g_money g' = g_money g)"
proof (induction ps arbitrary: g)
  case Nil
  then show ?case by simp
next
  case (Cons p ps)
  from Cons.prems(1) obtain hit p1 where mv: "Projectile_move (enemy_heap g) p = Inr (hit, p1)"
    by (auto split: sum.splits)
  consider (hitlive) "p_target p1 \<in> set (g_enemies g)" "hit"
    | (dead) "p_target p1 \<notin> set (g_enemies g)"
    | (fly) "p_target p1 \<in> set (g_enemies g)" "\<not> hit" by blast
  then show ?case
  proof cases
    case hitlive
    then have run: "update_projectiles ps (resolve_hit g p1) = Inr g'"
      using Cons.prems mv by simp
    have "length (g_enemies (resolve_hit g p1)) \<le> length (g_enemies g)
          \<and> (length (g_enemies (resolve_hit g p1)) = length (g_enemies g)
               \<longrightarrow> g_money (resolve_hit g p1) = g_money g)"
    proof -
      have "length (remove1 (p_target p1) (g_enemies g)) < length (g_enemies g)"
        using hitlive(1) length_pos_if_in_set[of "p_target p1" "g_enemies g"]
        by (simp add: length_remove1)
      then show ?thesis
        by (auto simp: resolve_hit_def Enemy_take_damage_def Let_def)
    qed
    with Cons.IH[OF run] show ?thesis by auto
  next
    case dead
    then have "update_projectiles ps g = Inr g'"
      using Cons.prems mv by simp
    from Cons.IH[OF this] show ?thesis .
  next
    case fly
    then have "update_projectiles ps (g\<lparr>g_projectiles := g_projectiles g @ [p1]\<rparr>) = Inr g'"
      using Cons.prems mv by simp
    from Cons.IH[OF this] show ?thesis by simp
  qed
qed

subsection \<open>One tick from the state \<open>demo\<close>\<close>

lemma demo_eval:
  "\<exists>g'. Game_update demo = Inr g'
     \<and> g_lives g' = -1 \<and> g_state g' = GAME_OVER \<and> g_money g' = 50
     \<and> g_enemies g' = [3] \<and> g_frame_count g' = 101
     \<and> g_projectiles g' = [\<lparr> p_x = 302, p_y = 308, p_target = 3, p_damage = 30, p_speed = 8 \<rparr>]
     \<and> t_target (tower_heap g' 0) = Some 2 \<and> t_last_shot (tower_heap g' 0) = 101
     \<and> e_health (enemy_heap g' 2) = 0 \<and> e_x (enemy_heap g' 2) = 101
     \<and> e_health (enemy_heap g' 3) = 100 \<and> e_x (enemy_heap g' 3) = 302
     \<and> enemy_heap g' 4 = enemy_heap demo 4
     \<and> e_path_index (enemy_heap g' 0) = 9 \<and> e_path_index (enemy_heap g' 1) = 9"
  by (simp add: Game_update_def update_wave_def demo_def demo_enemies_def blank_enemy_def
      Enemy_move_def Let_def game_path_nth sqrt_values sqrt_le_num sqrt_less_num
      Tower_find_target_def Tower_distance_def Tower_init_def Tower_get_range_def
      Tower_get_damage_def Tower_shoot_def Projectile_init_def Projectile_move_def
      resolve_hit_def Enemy_take_damage_def)

lemma demo_update:
  "Game_update demo = Inr demo_after
     \<and> g_lives demo_after = -1 \<and> g_state demo_after = GAME_OVER \<and> g_money demo_after = 50
     \<and> g_enemies demo_after = [3] \<and> g_frame_count demo_after = 101
     \<and> g_projectiles demo_after = [\<lparr> p_x = 302, p_y = 308, p_target = 3, p_damage = 30, p_speed = 8 \<rparr>]
     \<and> t_target (tower_heap demo_after 0) = Some 2 \<and> t_last_shot (tower_heap demo_after 0) = 101
     \<and> e_health (enemy_heap demo_after 2) = 0 \<and> e_x (enemy_heap demo_after 2) = 101
     \<and> e_health (enemy_heap demo_after 3) = 100 \<and> e_x (enemy_heap demo_after 3) = 302
     \<and> enemy_heap demo_after 4 = enemy_heap demo 4
     \<and> e_path_index (enemy_heap demo_after 0) = 9 \<and> e_path_index (enemy_heap demo_after 1) = 9"
proof -
  from demo_eval obtain g' where g': "Game_update demo = Inr g'" by blast
  then have "demo_after = g'" by (simp add: demo_after_def)
  with demo_eval g' show ?thesis by auto
qed


subsection \<open>The projectile loop, one visit at a time\<close>

lemma update_projectiles_append:
  "update_projectiles (ps1 @ ps2) g
     = (case update_projectiles ps1 g of Inl err \<Rightarrow> Inl err | Inr gm \<Rightarrow> update_projectiles ps2 gm)"
proof (induction ps1 arbitrary: g)
  case Nil
  show ?case by simp
next
  case (Cons p ps1)
  show ?case
  proof (cases "Projectile_move (enemy_heap g) p")
    case (Inl err)
    then show ?thesis by simp
  next
    case (Inr res)
    obtain hit p1 where res: "res = (hit, p1)" by (cases res)
    show ?thesis
      by (simp add: Inr res Cons.IH)
  qed
qed

lemma update_projectiles_visit_stale:
  assumes "p_target p \<notin> set (g_enemies gm)" "0 \<le> p_speed p"
  shows "update_projectiles [p] gm = Inr gm"
  using update_projectiles_step_dead[OF assms, of "[]"] by simp

lemma update_projectiles_visit_live:
  assumes live: "p_target p \<in> set (g_enemies gm)" and sp: "0 \<le> p_speed p"
  shows "\<exists>gn. update_projectiles [p] gm = Inr gn
     \<and> (\<forall>r. r \<noteq> p_target p \<longrightarrow> enemy_heap gn r = enemy_heap gm r)
     \<and> enemy_heap gn (p_target p) =
         (if Projectile_arrives (enemy_heap gm) p
          then (enemy_heap gm (p_target p))
                 \<lparr> e_health := e_health (enemy_heap gm (p_target p)) - p_damage p \<rparr>
          else enemy_heap gm (p_target p))
     \<and> g_money gn =
         (if Projectile_arrives (enemy_heap gm) p
             \<and> e_health (enemy_heap gm (p_target p)) - p_damage p \<le> 0
          then g_money gm + e_reward (enemy_heap gm (p_target p)) else g_money gm)
     \<and> g_enemies gn =
         (if Projectile_arrives (enemy_heap gm) p
             \<and> e_health (enemy_heap gm (p_target p)) - p_damage p \<le> 0
          then remove1 (p_target p) (g_enemies gm) else g_enemies gm)
     \<and> g_projectiles gn =
         (if Projectile_arrives (enemy_heap gm) p then g_projectiles gm
          else g_projectiles gm @ [Projectile_moved (enemy_heap gm) p])"
proof -
  from Projectile_move_total[OF sp, of "enemy_heap gm"] obtain hit p1
    where mv: "Projectile_move (enemy_heap gm) p = Inr (hit, p1)" by blast
  have tg: "p_target p1 = p_target p" "p_damage p1 = p_damage p"
    using mv by (auto simp: Projectile_move_def Let_def split: if_splits)
  show ?thesis
    using live
    by (cases hit)
       (auto simp: mv tg Projectile_arrives_def Projectile_moved_def resolve_hit_def
          Enemy_take_damage_def Let_def)
qed

subsection \<open>The tower loop, one visit at a time\<close>






subsection \<open>Well-formedness is preserved by every operation\<close>













subsection \<open>Spacing of shots over a run\<close>








subsection \<open>Evaluating runs\<close>
















subsection \<open>The tick from \<open>demo\<close>, phase by phase\<close>

lemma demo_moved_eval:
  "update_wave (demo\<lparr> g_frame_count := g_frame_count demo + 1 \<rparr>)
     = Inr (demo\<lparr> g_frame_count := 101 \<rparr>)
   \<and> update_enemies (g_enemies demo) (demo\<lparr> g_frame_count := 101 \<rparr>) = Inr demo_moved
   \<and> g_state demo_moved = GAME_OVER \<and> g_lives demo_moved = -1 \<and> g_enemies demo_moved = [2, 3]
   \<and> g_towers demo_moved = [0] \<and> g_frame_count demo_moved = 101
   \<and> g_projectiles demo_moved = g_projectiles demo \<and> g_money demo_moved = 0"
  by (simp add: demo_moved_def update_wave_def demo_def demo_enemies_def blank_enemy_def
      Enemy_move_def Let_def game_path_nth sqrt_values sqrt_le_num sqrt_less_num)

lemma demo_aimed_eval:
  "g_projectiles demo_aimed
     = g_projectiles demo @ [\<lparr> p_x = 101, p_y = 300, p_target = 2, p_damage = 30, p_speed = 8 \<rparr>]
   \<and> g_enemies demo_aimed = [2, 3] \<and> g_money demo_aimed = 0
   \<and> g_state demo_aimed = GAME_OVER \<and> g_lives demo_aimed = -1
   \<and> e_health (enemy_heap demo_aimed 2) = 30
   \<and> t_last_shot (tower_heap demo_aimed 0) = 101 \<and> t_target (tower_heap demo_aimed 0) = Some 2"
  by (simp add: demo_aimed_def demo_moved_def update_wave_def demo_def demo_enemies_def blank_enemy_def
      Enemy_move_def Let_def game_path_nth sqrt_values sqrt_le_num sqrt_less_num
      Tower_find_target_def Tower_distance_def Tower_init_def Tower_get_range_def
      Tower_get_damage_def Tower_shoot_def Projectile_init_def)

lemma update_projectiles_prefix:
  assumes "update_projectiles ps1 g = Inr gm" "update_projectiles [p] gm = Inr gn"
  shows "update_projectiles (ps1 @ [p]) g = Inr gn"
    and "update_projectiles (ps1 @ p # ps2) g = update_projectiles ps2 gn"
proof -
  show a: "update_projectiles (ps1 @ [p]) g = Inr gn"
    unfolding update_projectiles_append[of ps1 "[p]"] assms(1) by (simp only: sum.case assms(2))
  have "update_projectiles ((ps1 @ [p]) @ ps2) g = update_projectiles ps2 gn"
    unfolding update_projectiles_append[of "ps1 @ [p]" ps2] a by (simp only: sum.case)
  then show "update_projectiles (ps1 @ p # ps2) g = update_projectiles ps2 gn" by simp
qed

lemma demo_moved_eq:
  "demo_moved = demo\<lparr> g_state := GAME_OVER, g_frame_count := 101, g_enemies := [2, 3], g_lives := -1,
      enemy_heap := demo_enemies
        (0 := (demo_enemies 0)\<lparr> e_path_index := 9 \<rparr>,
         1 := (demo_enemies 1)\<lparr> e_path_index := 9 \<rparr>,
         2 := (demo_enemies 2)\<lparr> e_x := 101 \<rparr>,
         3 := (demo_enemies 3)\<lparr> e_x := 302 \<rparr>) \<rparr>"
  by (simp add: demo_moved_def update_wave_def demo_def demo_enemies_def blank_enemy_def
      Enemy_move_def Let_def game_path_nth sqrt_values sqrt_le_num sqrt_less_num)

lemma demo_aimed_eq:
  "demo_aimed = demo_moved\<lparr>
      g_projectiles := g_projectiles demo
         @ [\<lparr> p_x = 101, p_y = 300, p_target = 2, p_damage = 30, p_speed = 8 \<rparr>],
      tower_heap := (\<lambda>_. blank_tower)
         (0 := (Tower_init 101 300 T_BASIC)\<lparr> t_target := Some 2, t_last_shot := 101 \<rparr>) \<rparr>"
  by (simp add: demo_aimed_def demo_moved_eq demo_def demo_enemies_def blank_enemy_def Let_def
      sqrt_values sqrt_le_num sqrt_less_num
      Tower_find_target_def Tower_distance_def Tower_init_def Tower_get_range_def
      Tower_get_damage_def Tower_shoot_def Projectile_init_def)

lemma demo_after_eq:
  "demo_after = demo_aimed\<lparr>
      g_projectiles := [\<lparr> p_x = 302, p_y = 308, p_target = 3, p_damage = 30, p_speed = 8 \<rparr>],
      g_enemies := [3], g_money := 50,
      enemy_heap := (enemy_heap demo_aimed)(2 := (enemy_heap demo_aimed 2)\<lparr> e_health := 0 \<rparr>) \<rparr>"
  by (simp add: demo_after_def Game_update_def demo_aimed_eq demo_moved_eq update_wave_def
      demo_def demo_enemies_def blank_enemy_def
      Enemy_move_def Let_def game_path_nth sqrt_values sqrt_le_num sqrt_less_num
      Tower_find_target_def Tower_distance_def Tower_init_def Tower_get_range_def
      Tower_get_damage_def Tower_shoot_def Projectile_init_def Projectile_move_def
      resolve_hit_def Enemy_take_damage_def)


lemma demo_volley:
  "update_projectiles (g_projectiles demo) (demo_aimed\<lparr> g_projectiles := [] \<rparr>) = Inr demo_after"
  by (simp add: demo_after_eq demo_aimed_eq demo_moved_eq demo_def demo_enemies_def blank_enemy_def
      Let_def sqrt_values sqrt_le_num sqrt_less_num Projectile_move_def
      resolve_hit_def Enemy_take_damage_def)

lemma demo_first_shot:
  "Projectile_arrives (enemy_heap demo_aimed) (g_projectiles demo ! 0)
   \<and> p_target (g_projectiles demo ! 0) = 2 \<and> p_damage (g_projectiles demo ! 0) = 30
   \<and> p_speed (g_projectiles demo ! 0) = 8
   \<and> e_health (enemy_heap demo_aimed 2) = 30 \<and> e_reward (enemy_heap demo_aimed 2) = 50
   \<and> g_enemies demo_aimed = [2, 3] \<and> g_money demo_aimed = 0"
  by (simp add: demo_aimed_eq demo_moved_eq demo_def demo_enemies_def blank_enemy_def
      Let_def sqrt_values sqrt_le_num sqrt_less_num Projectile_move_def Projectile_arrives_def)

subsection \<open>Reachable states and the run \<open>ambush\<close>\<close>












subsection \<open>The loops do not look at the state of the game\<close>

lemma update_towers_state:
  "update_towers ts (g\<lparr> g_state := s \<rparr>) = (update_towers ts g)\<lparr> g_state := s \<rparr>"
proof (induction ts arbitrary: g)
  case Nil
  show ?case by simp
next
  case (Cons a ts)
  have c1: "x\<lparr> g_state := s, tower_heap := th \<rparr> = x\<lparr> tower_heap := th, g_state := s \<rparr>" for x th
    by (cases x) simp
  have c2: "x\<lparr> g_state := s, tower_heap := th, g_projectiles := ps \<rparr>
            = x\<lparr> tower_heap := th, g_projectiles := ps, g_state := s \<rparr>" for x th ps
    by (cases x) simp
  have c3: "x\<lparr> tower_heap := th, g_state := s, g_projectiles := ps \<rparr>
            = (x\<lparr> tower_heap := th, g_projectiles := ps \<rparr>)\<lparr> g_state := s \<rparr>" for x th ps
    by (cases x) simp
  show ?case
    by (simp add: Let_def Cons.IH c1 c3 split: prod.splits option.splits)
qed

lemma resolve_hit_state:
  "resolve_hit (g\<lparr> g_state := s \<rparr>) p = (resolve_hit g p)\<lparr> g_state := s \<rparr>"
proof -
  have c1: "x\<lparr> g_state := s, enemy_heap := eh \<rparr> = x\<lparr> enemy_heap := eh, g_state := s \<rparr>" for x eh
    by (cases x) simp
  have c2: "x\<lparr> g_state := s, enemy_heap := eh, g_money := m, g_enemies := es \<rparr>
            = x\<lparr> enemy_heap := eh, g_money := m, g_enemies := es, g_state := s \<rparr>" for x eh m es
    by (cases x) simp
  show ?thesis
    by (simp add: resolve_hit_def Let_def c1 c2 split: prod.splits)
qed

lemma update_projectiles_state:
  "update_projectiles ps (g\<lparr> g_state := s \<rparr>)
     = (case update_projectiles ps g of Inl err \<Rightarrow> Inl err | Inr g' \<Rightarrow> Inr (g'\<lparr> g_state := s \<rparr>))"
proof (induction ps arbitrary: g)
  case Nil
  show ?case by simp
next
  case (Cons p ps)
  have c1: "x\<lparr> g_state := s, g_projectiles := q \<rparr> = x\<lparr> g_projectiles := q, g_state := s \<rparr>" for x q
    by (cases x) simp
  show ?case
  proof (cases "Projectile_move (enemy_heap g) p")
    case (Inl err)
    then show ?thesis by simp
  next
    case (Inr res)
    obtain hit p1 where res: "res = (hit, p1)" by (cases res)
    show ?thesis
      by (simp add: Inr res Cons.IH resolve_hit_state c1)
  qed
qed

lemma update_enemies_count:
  assumes "update_enemies es g = Inr g'" "distinct es" "distinct (g_enemies g)"
  shows "(\<forall>r. enemy_heap g' r = (if r \<in> set es then Enemy_moved (enemy_heap g r) else enemy_heap g r))
     \<and> g_lives g' = g_lives g - int (length (filter (\<lambda>r. Enemy_reaches (enemy_heap g r)) es))
     \<and> g_enemies g' = filter (\<lambda>r. \<not> (r \<in> set es \<and> Enemy_reaches (enemy_heap g r))) (g_enemies g)
     \<and> g_state g' = (if g_lives g' \<le> 0 \<and> (\<exists>r \<in> set es. Enemy_reaches (enemy_heap g r))
                     then GAME_OVER else g_state g)"
  using assms
proof (induction es arbitrary: g)
  case Nil
  then show ?case by simp
next
  case (Cons a es)
  from Cons.prems(1) obtain b e1 where mv: "Enemy_move (enemy_heap g a) = Inr (b, e1)"
    by (cases "Enemy_move (enemy_heap g a)") auto
  have rb: "Enemy_reaches (enemy_heap g a) = b" and me: "Enemy_moved (enemy_heap g a) = e1"
    by (simp_all add: Enemy_reaches_def Enemy_moved_def mv)
  define g1 where "g1 = (if b then
       (let g3 = g\<lparr>enemy_heap := (enemy_heap g)(a := e1), g_lives := g_lives g - 1,
                    g_enemies := remove1 a (g_enemies g)\<rparr>
        in if g_lives g3 \<le> 0 then g3\<lparr>g_state := GAME_OVER\<rparr> else g3)
     else g\<lparr>enemy_heap := (enemy_heap g)(a := e1)\<rparr>)"
  have run: "update_enemies (a # es) g = update_enemies es g1"
    by (simp add: mv g1_def Let_def)
  have a: "a \<notin> set es" and des: "distinct es" using Cons.prems(2) by simp_all
  have h1: "enemy_heap g1 = (enemy_heap g)(a := e1)"
    by (simp add: g1_def Let_def)
  have l1: "g_lives g1 = (if b then g_lives g - 1 else g_lives g)"
    by (simp add: g1_def Let_def)
  have en1: "g_enemies g1 = (if b then filter (\<lambda>r. r \<noteq> a) (g_enemies g) else g_enemies g)"
    using Cons.prems(3) by (simp add: g1_def Let_def distinct_remove1_removeAll removeAll_filter_not_eq)
       (metis (mono_tags, lifting) filter_cong)
  have s1: "g_state g1 = (if b \<and> g_lives g - 1 \<le> 0 then GAME_OVER else g_state g)"
    by (simp add: g1_def Let_def)
  have d1: "distinct (g_enemies g1)" using Cons.prems(3) by (simp add: en1)
  from Cons.prems(1) have r1: "update_enemies es g1 = Inr g'" by (simp only: run)
  note IH = Cons.IH[OF r1 des d1]
  have same: "enemy_heap g1 r = enemy_heap g r" if "r \<in> set es" for r
    using that a by (auto simp: h1)
  have fl: "filter (\<lambda>r. Enemy_reaches (enemy_heap g1 r)) es
            = filter (\<lambda>r. Enemy_reaches (enemy_heap g r)) es"
    by (rule filter_cong) (simp_all add: same)
  have ex: "(\<exists>r \<in> set es. Enemy_reaches (enemy_heap g1 r))
            = (\<exists>r \<in> set es. Enemy_reaches (enemy_heap g r))"
    using same by auto
  have A: "\<forall>r. enemy_heap g' r = (if r \<in> set (a # es) then Enemy_moved (enemy_heap g r) else enemy_heap g r)"
  proof
    fix r
    show "enemy_heap g' r = (if r \<in> set (a # es) then Enemy_moved (enemy_heap g r) else enemy_heap g r)"
      using IH a me by (cases "r = a") (auto simp: h1)
  qed
  have B: "g_lives g' = g_lives g - int (length (filter (\<lambda>r. Enemy_reaches (enemy_heap g r)) (a # es)))"
    using IH by (simp add: fl l1 rb)
  have C: "g_enemies g' = filter (\<lambda>r. \<not> (r \<in> set (a # es) \<and> Enemy_reaches (enemy_heap g r))) (g_enemies g)"
  proof -
    have "g_enemies g' = filter (\<lambda>r. \<not> (r \<in> set es \<and> Enemy_reaches (enemy_heap g1 r))) (g_enemies g1)"
      using IH by simp
    also have "\<dots> = filter (\<lambda>r. \<not> (r \<in> set es \<and> Enemy_reaches (enemy_heap g r))) (g_enemies g1)"
      by (rule filter_cong) (auto simp: same)
    also have "\<dots> = filter (\<lambda>r. \<not> (r \<in> set (a # es) \<and> Enemy_reaches (enemy_heap g r))) (g_enemies g)"
      by (cases b) (auto simp: en1 rb intro: filter_cong)
    finally show ?thesis .
  qed
  have k: "(\<exists>r \<in> set es. Enemy_reaches (enemy_heap g r))
           \<longleftrightarrow> 0 < length (filter (\<lambda>r. Enemy_reaches (enemy_heap g r)) es)"
    by (simp add: filter_empty_conv)
  have D: "g_state g' = (if g_lives g' \<le> 0 \<and> (\<exists>r \<in> set (a # es). Enemy_reaches (enemy_heap g r))
                     then GAME_OVER else g_state g)"
  proof -
    have st: "g_state g' = (if g_lives g' \<le> 0 \<and> (\<exists>r \<in> set es. Enemy_reaches (enemy_heap g r))
                     then GAME_OVER else g_state g1)"
      using IH by (simp add: ex)
    have lv: "g_lives g' = g_lives g1 - int (length (filter (\<lambda>r. Enemy_reaches (enemy_heap g r)) es))"
      using IH by (simp add: fl)
    show ?thesis
      unfolding st s1 using lv l1 rb k by (cases b) auto
  qed
  from A B C D show ?case by blast
qed


lemma demo_reaching:
  "Enemy_reaches (demo_enemies 0) \<and> Enemy_reaches (demo_enemies 1)
   \<and> \<not> Enemy_reaches (demo_enemies 2) \<and> \<not> Enemy_reaches (demo_enemies 3)"
  by (simp add: Enemy_reaches_def demo_enemies_def blank_enemy_def
      Enemy_move_def Let_def game_path_nth sqrt_values sqrt_le_num sqrt_less_num)

section \<open>The claims\<close>

subsection \<open>C5: the spawn list of a wave\<close>

text \<open>
  Claim C5.  For every wave number \<open>N \<ge> 1\<close> and every shuffle that permutes its argument,
  the spawn list is a permutation of \<open>min (5 + 2N) 20\<close> Basic enemies, \<open>min N 10\<close> Fast
  enemies when \<open>N \<ge> 2\<close> (none otherwise) and \<open>min ((N - 3) div 2) 5\<close> Tank enemies when
  \<open>N \<ge> 4\<close> (none otherwise); its length is the sum of the three counts.
\<close>

theorem C5_wave_spawn_counts:
  assumes perm: "\<And>xs. mset (shuffle xs) = mset xs" and N: "1 \<le> N"
  shows "mset (Wave_generate_enemies shuffle N) =
           replicate_mset (nat (min (5 + 2 * N) 20)) E_BASIC
         + replicate_mset (if 2 \<le> N then nat (min N 10) else 0) E_FAST
         + replicate_mset (if 4 \<le> N then nat (min ((N - 3) div 2) 5) else 0) E_TANK
       \<and> int (length (Wave_generate_enemies shuffle N)) =
           min (5 + 2 * N) 20 + (if 2 \<le> N then min N 10 else 0)
         + (if 4 \<le> N then min ((N - 3) div 2) 5 else 0)"
proof -
  have len: "length (shuffle xs) = length xs" for xs
    using perm[of xs] by (metis size_mset)
  show ?thesis
    using N by (auto simp: Wave_generate_enemies_def Let_def perm len mult.commute)
qed

text \<open>Waves 1 and 5, shuffled by reversal: 7 enemies, and 15 + 5 + 1 = 21.\<close>

theorem C5_wave_spawn_counts_witness:
  "mset (Wave_generate_enemies rev 1) = replicate_mset 7 E_BASIC
   \<and> length (Wave_generate_enemies rev 1) = 7
   \<and> mset (Wave_generate_enemies rev 5) =
       replicate_mset 15 E_BASIC + replicate_mset 5 E_FAST + replicate_mset 1 E_TANK
   \<and> length (Wave_generate_enemies rev 5) = 21"
  using C5_wave_spawn_counts[of rev 1] C5_wave_spawn_counts[of rev 5] by simp

subsection \<open>C3: the reset from the end screens\<close>

text \<open>
  Claim C3 says that the reset from GameOver or Victory leads to Menu.  It does not:
  \<^verbatim>\<open>reset_game\<close> ends with \<^verbatim>\<open>self.state = GameState.PLAYING\<close>, from a lost game and from a won
  game alike, by the method itself or by a click on the restart button.
\<close>

theorem C3_reset_not_menu:
  "g_state (Game_handle_end_screen_click (demo_after\<lparr> g_state := GAME_OVER \<rparr>) (500, 375)) \<noteq> MENU
   \<and> g_state (Game_handle_end_screen_click (demo_after\<lparr> g_state := VICTORY \<rparr>) (500, 375)) \<noteq> MENU
   \<and> g_state (Game_reset_game (demo_after\<lparr> g_state := GAME_OVER \<rparr>)) = PLAYING
   \<and> g_state (Game_reset_game (demo_after\<lparr> g_state := VICTORY \<rparr>)) = PLAYING"
  by (simp add: Game_handle_end_screen_click_def Game_reset_game_def SCREEN_WIDTH_def)

text \<open>
  Claim C3, amended.  From any state, GameOver and Victory among them, \<^verbatim>\<open>reset_game\<close> sets
  the state to Playing, money to 500, lives to 20, the wave counter and the frame counter
  to 0, empties the tower, enemy and projectile lists and drops the wave; a click inside
  the restart button of the end screen (400..600 by 350..400) does exactly that.
\<close>

theorem C3_reset:
  assumes "400 \<le> x" "x \<le> 600" "350 \<le> y" "y \<le> 400"
  shows "Game_handle_end_screen_click g (x, y) = Game_reset_game g
       \<and> g_state (Game_reset_game g) = PLAYING
       \<and> g_money (Game_reset_game g) = 500
       \<and> g_lives (Game_reset_game g) = 20
       \<and> g_current_wave (Game_reset_game g) = 0
       \<and> g_frame_count (Game_reset_game g) = 0
       \<and> g_enemies (Game_reset_game g) = []
       \<and> g_towers (Game_reset_game g) = []
       \<and> g_projectiles (Game_reset_game g) = []
       \<and> g_wave (Game_reset_game g) = None
       \<and> g_wave_active (Game_reset_game g) = False"
  using assms
  by (simp add: Game_reset_game_def Game_handle_end_screen_click_def STARTING_MONEY_def
      STARTING_LIVES_def SCREEN_WIDTH_def)

theorem C3_reset_witness:
  "Game_handle_end_screen_click demo_after (500, 375) = Game_reset_game demo_after
   \<and> g_state demo_after = GAME_OVER
   \<and> g_state (Game_reset_game demo_after) = PLAYING
   \<and> g_money (Game_reset_game demo_after) = 500
   \<and> g_lives (Game_reset_game demo_after) = 20
   \<and> g_enemies (Game_reset_game demo_after) = []"
  using C3_reset[of 500 375 demo_after] demo_update by simp

subsection \<open>C8: upgrading a tower\<close>

text \<open>
  Claim C8.  \<^verbatim>\<open>upgrade_tower\<close> changes nothing when the tower's level is 3 (or more),
  whatever the money, or when money is below 150.  Otherwise it takes exactly 150, adds 1
  to the level and sets range and damage to the table's values for the new level, which
  are the values for the old level plus 20 and plus 15; the fire rate, every other tower
  and the rest of the game stay as they are.
\<close>

theorem C8_upgrade_tower:
  "(3 \<le> t_level (tower_heap g r) \<or> g_money g < 150 \<longrightarrow> Game_upgrade_tower g r = g)
   \<and> (t_level (tower_heap g r) < 3 \<and> 150 \<le> g_money g \<longrightarrow>
        g_money (Game_upgrade_tower g r) = g_money g - 150
      \<and> t_level (tower_heap (Game_upgrade_tower g r) r) = t_level (tower_heap g r) + 1
      \<and> t_range (tower_heap (Game_upgrade_tower g r) r)
          = Tower_get_range (t_type (tower_heap g r)) (t_level (tower_heap g r)) + 20
      \<and> t_damage (tower_heap (Game_upgrade_tower g r) r)
          = Tower_get_damage (t_type (tower_heap g r)) (t_level (tower_heap g r)) + 15
      \<and> t_fire_rate (tower_heap (Game_upgrade_tower g r) r) = t_fire_rate (tower_heap g r)
      \<and> Game_upgrade_tower g r =
          g\<lparr> tower_heap := (tower_heap g)
                (r := (tower_heap g r)
                   \<lparr> t_level := t_level (tower_heap g r) + 1,
                     t_range := Tower_get_range (t_type (tower_heap g r))
                                  (t_level (tower_heap g r) + 1),
                     t_damage := Tower_get_damage (t_type (tower_heap g r))
                                  (t_level (tower_heap g r) + 1) \<rparr>),
             g_money := g_money g - 150 \<rparr>)"
  by (simp add: Game_upgrade_tower_def Tower_can_upgrade_def Tower_upgrade_def UPGRADE_COST_def
      Tower_get_range_def Tower_get_damage_def Let_def)

text \<open>
  The tower of \<open>demo\<close> with 400 money: two upgrades succeed (140/45, then 160/60), the
  third is refused for the money (100 left), and a fourth is refused at level 3 even with
  1000 money.
\<close>

theorem C8_upgrade_tower_witness:
  "t_level (tower_heap (demo\<lparr> g_money := 400 \<rparr>) 0) < 3 \<and> 150 \<le> g_money (demo\<lparr> g_money := 400 \<rparr>)
   \<and> g_money (Game_upgrade_tower (demo\<lparr> g_money := 400 \<rparr>) 0) = 250
   \<and> t_level (tower_heap (Game_upgrade_tower (demo\<lparr> g_money := 400 \<rparr>) 0) 0) = 2
   \<and> t_range (tower_heap (Game_upgrade_tower (demo\<lparr> g_money := 400 \<rparr>) 0) 0) = 140
   \<and> t_damage (tower_heap (Game_upgrade_tower (demo\<lparr> g_money := 400 \<rparr>) 0) 0) = 45
   \<and> t_fire_rate (tower_heap (Game_upgrade_tower (demo\<lparr> g_money := 400 \<rparr>) 0) 0) = 30
   \<and> g_money (Game_upgrade_tower (Game_upgrade_tower (demo\<lparr> g_money := 400 \<rparr>) 0) 0) = 100
   \<and> t_range (tower_heap (Game_upgrade_tower (Game_upgrade_tower (demo\<lparr> g_money := 400 \<rparr>) 0) 0) 0) = 160
   \<and> t_damage (tower_heap (Game_upgrade_tower (Game_upgrade_tower (demo\<lparr> g_money := 400 \<rparr>) 0) 0) 0) = 60
   \<and> Game_upgrade_tower (Game_upgrade_tower (Game_upgrade_tower (demo\<lparr> g_money := 400 \<rparr>) 0) 0) 0
       = Game_upgrade_tower (Game_upgrade_tower (demo\<lparr> g_money := 400 \<rparr>) 0) 0
   \<and> Game_upgrade_tower
        ((Game_upgrade_tower (Game_upgrade_tower (demo\<lparr> g_money := 400 \<rparr>) 0) 0)\<lparr> g_money := 1000 \<rparr>) 0
       = (Game_upgrade_tower (Game_upgrade_tower (demo\<lparr> g_money := 400 \<rparr>) 0) 0)\<lparr> g_money := 1000 \<rparr>"
  using C8_upgrade_tower[of "demo\<lparr> g_money := 400 \<rparr>" 0]
  by (simp add: demo_def Game_upgrade_tower_def Tower_can_upgrade_def Tower_upgrade_def
      UPGRADE_COST_def Tower_get_range_def Tower_get_damage_def Tower_init_def Let_def)

subsection \<open>C6: target acquisition\<close>

text \<open>
  Claim C6.  \<^verbatim>\<open>find_target\<close> returns nothing exactly when no enemy of the list is within
  range.  Otherwise it returns an enemy of the list that is within range, no farther than
  any other enemy within range, and strictly nearer than every enemy within range that
  stands before it in the list (the first of the nearest).  The result does not depend on
  the tower's previous target, and after a tick every tower of the game has as its target
  what \<^verbatim>\<open>find_target\<close> returns on the live enemies as the enemy phase of that tick left them.
\<close>

theorem C6_find_target:
  "(case Tower_find_target h t es of
      None \<Rightarrow> \<forall>j < length es. \<not> Tower_distance h t (es ! j) \<le> of_int (t_range t)
    | Some r \<Rightarrow>
        \<exists>i < length es. es ! i = r
          \<and> Tower_distance h t r \<le> of_int (t_range t)
          \<and> (\<forall>j < length es. Tower_distance h t (es ! j) \<le> of_int (t_range t)
                 \<longrightarrow> Tower_distance h t r \<le> Tower_distance h t (es ! j))
          \<and> (\<forall>j < i. Tower_distance h t (es ! j) \<le> of_int (t_range t)
                 \<longrightarrow> Tower_distance h t r < Tower_distance h t (es ! j)))
   \<and> Tower_find_target h (t\<lparr> t_target := old \<rparr>) es = Tower_find_target h t es
   \<and> (g_state g = PLAYING \<and> Game_update g = Inr g' \<longrightarrow>
        (\<exists>g1 g2. update_wave (g\<lparr> g_frame_count := g_frame_count g + 1 \<rparr>) = Inr g1
            \<and> update_enemies (g_enemies g1) g1 = Inr g2
            \<and> (\<forall>r \<in> set (g_towers g).
                  t_target (tower_heap g' r)
                    = Tower_find_target (enemy_heap g2) (tower_heap g r) (g_enemies g2))))"
proof (intro conjI impI)
  show "case Tower_find_target h t es of
      None \<Rightarrow> \<forall>j < length es. \<not> Tower_distance h t (es ! j) \<le> of_int (t_range t)
    | Some r \<Rightarrow>
        \<exists>i < length es. es ! i = r
          \<and> Tower_distance h t r \<le> of_int (t_range t)
          \<and> (\<forall>j < length es. Tower_distance h t (es ! j) \<le> of_int (t_range t)
                 \<longrightarrow> Tower_distance h t r \<le> Tower_distance h t (es ! j))
          \<and> (\<forall>j < i. Tower_distance h t (es ! j) \<le> of_int (t_range t)
                 \<longrightarrow> Tower_distance h t r < Tower_distance h t (es ! j))"
    using find_target_spec[of h t es] by (auto simp: ft_inv_def split: option.splits)
next
  show "Tower_find_target h (t\<lparr> t_target := old \<rparr>) es = Tower_find_target h t es"
    by (simp add: Tower_find_target_def)
next
  assume a: "g_state g = PLAYING \<and> Game_update g = Inr g'"
  then obtain g1 g2 where
      w: "update_wave (g\<lparr> g_frame_count := g_frame_count g + 1 \<rparr>) = Inr g1"
      and e: "update_enemies (g_enemies g1) g1 = Inr g2"
      and p: "update_projectiles (g_projectiles (update_towers (g_towers g2) g2))
                ((update_towers (g_towers g2) g2)\<lparr> g_projectiles := [] \<rparr>) = Inr g'"
    by (auto simp: Game_update_def Let_def split: sum.splits)
  have t1: "tower_heap g2 = tower_heap g" "g_towers g2 = g_towers g"
    using update_wave_frame[OF w] update_enemies_frame[OF e] by simp_all
  have t2: "tower_heap g' = tower_heap (update_towers (g_towers g2) g2)"
    using update_projectiles_frame[OF p] by simp
  have "\<forall>r \<in> set (g_towers g).
          t_target (tower_heap g' r)
            = Tower_find_target (enemy_heap g2) (tower_heap g r) (g_enemies g2)"
    using update_towers_target[of _ "g_towers g2" g2] t1 t2 by simp
  with w e show "\<exists>g1 g2. update_wave (g\<lparr> g_frame_count := g_frame_count g + 1 \<rparr>) = Inr g1
            \<and> update_enemies (g_enemies g1) g1 = Inr g2
            \<and> (\<forall>r \<in> set (g_towers g).
                  t_target (tower_heap g' r)
                    = Tower_find_target (enemy_heap g2) (tower_heap g r) (g_enemies g2))"
    by blast
qed

text \<open>
  Around the tower at (0, 0): of the equidistant enemies 1 and 2 the first in the list
  wins, in either order; the nearer enemy 3 wins wherever it stands; enemy 0 alone is out
  of range.  In the tick from \<open>demo\<close> the tower ends aimed at enemy 2.
\<close>

theorem C6_find_target_witness:
  "Tower_find_target ring_enemies blank_tower [0, 1, 2] = Some 1
   \<and> Tower_find_target ring_enemies blank_tower [0, 2, 1] = Some 2
   \<and> Tower_find_target ring_enemies blank_tower [3, 0, 1, 2] = Some 3
   \<and> Tower_find_target ring_enemies blank_tower [0, 1, 2, 3] = Some 3
   \<and> Tower_find_target ring_enemies blank_tower [0] = None
   \<and> g_state demo = PLAYING \<and> Game_update demo = Inr demo_after
   \<and> t_target (tower_heap demo_after 0) = Some 2"
  using C6_find_target[where h = ring_enemies and t = blank_tower and es = "[0, 1, 2]"
      and old = None and g = demo and g' = demo_after] demo_update
  by (simp add: Tower_find_target_def Tower_distance_def ring_enemies_def blank_enemy_def
      blank_tower_def Tower_init_def Tower_get_range_def Let_def sqrt_values sqrt_le_num
      sqrt_less_num demo_def)

subsection \<open>C9: projectiles whose target is gone\<close>

text \<open>
  Claim C9.  The projectile loop of a tick visits the snapshot in order; let \<open>gm\<close> be the
  game when the projectile \<open>p\<close> is visited, that is after the loop has run over the
  projectiles \<open>ps1\<close> before it (projectiles never have a negative speed: the constructor
  gives 8).  Liveness is tested against the enemy list of \<open>gm\<close>, the list as it is at that
  moment, not as it was when the loop started.
  \<^item> If the target of \<open>p\<close> is not in the live list of \<open>gm\<close>, the visit changes nothing: the
    game after it is \<open>gm\<close> itself (no enemy damaged, money unchanged, \<open>p\<close> not kept), the
    loop goes on from \<open>gm\<close> with the remaining projectiles, and in a tick whose projectile
    snapshot is \<open>ps1 @ p # ps2\<close> the result of \<^verbatim>\<open>update\<close> is that of the loop over \<open>ps2\<close>
    from \<open>gm\<close>.
  \<^item> If the target is live, the visit returns a game in which no Enemy object other than
    the target of \<open>p\<close> has changed; the target loses \<open>p\<close>'s damage if \<open>p\<close> has arrived and
    is unchanged otherwise; money grows by the target's reward exactly when \<open>p\<close> has arrived
    and the target's health has dropped to 0 or below, and then the target leaves the live
    list; \<open>p\<close> is kept, moved, exactly when it has not arrived.
\<close>

theorem C9_projectile_visit:
  assumes "update_projectiles ps1 g = Inr gm" and "0 \<le> p_speed p"
  shows
    "(p_target p \<notin> set (g_enemies gm) \<longrightarrow>
        update_projectiles (ps1 @ [p]) g = Inr gm
      \<and> update_projectiles (ps1 @ p # ps2) g = update_projectiles ps2 gm
      \<and> (g_state g0 = PLAYING
           \<and> update_wave (g0\<lparr> g_frame_count := g_frame_count g0 + 1 \<rparr>) = Inr g1
           \<and> update_enemies (g_enemies g1) g1 = Inr g2
           \<and> g = (update_towers (g_towers g2) g2)\<lparr> g_projectiles := [] \<rparr>
           \<and> g_projectiles (update_towers (g_towers g2) g2) = ps1 @ p # ps2
           \<longrightarrow> Game_update g0 = update_projectiles ps2 gm))
   \<and> (p_target p \<in> set (g_enemies gm) \<longrightarrow>
        (\<exists>gn. update_projectiles (ps1 @ [p]) g = Inr gn
           \<and> update_projectiles (ps1 @ p # ps2) g = update_projectiles ps2 gn
           \<and> (\<forall>r. r \<noteq> p_target p \<longrightarrow> enemy_heap gn r = enemy_heap gm r)
           \<and> enemy_heap gn (p_target p) =
               (if Projectile_arrives (enemy_heap gm) p
                then (enemy_heap gm (p_target p))
                       \<lparr> e_health := e_health (enemy_heap gm (p_target p)) - p_damage p \<rparr>
                else enemy_heap gm (p_target p))
           \<and> g_money gn =
               (if Projectile_arrives (enemy_heap gm) p
                   \<and> e_health (enemy_heap gm (p_target p)) - p_damage p \<le> 0
                then g_money gm + e_reward (enemy_heap gm (p_target p)) else g_money gm)
           \<and> g_enemies gn =
               (if Projectile_arrives (enemy_heap gm) p
                   \<and> e_health (enemy_heap gm (p_target p)) - p_damage p \<le> 0
                then remove1 (p_target p) (g_enemies gm) else g_enemies gm)
           \<and> g_projectiles gn =
               (if Projectile_arrives (enemy_heap gm) p then g_projectiles gm
                else g_projectiles gm @ [Projectile_moved (enemy_heap gm) p])))"
proof (intro conjI impI)
  assume stale: "p_target p \<notin> set (g_enemies gm)"
  have one: "update_projectiles [p] gm = Inr gm"
    by (rule update_projectiles_visit_stale[OF stale assms(2)])
  show "update_projectiles (ps1 @ [p]) g = Inr gm"
    by (rule update_projectiles_prefix(1)[OF assms(1) one])
  show rest: "update_projectiles (ps1 @ p # ps2) g = update_projectiles ps2 gm"
    by (rule update_projectiles_prefix(2)[OF assms(1) one])
  assume "g_state g0 = PLAYING
           \<and> update_wave (g0\<lparr> g_frame_count := g_frame_count g0 + 1 \<rparr>) = Inr g1
           \<and> update_enemies (g_enemies g1) g1 = Inr g2
           \<and> g = (update_towers (g_towers g2) g2)\<lparr> g_projectiles := [] \<rparr>
           \<and> g_projectiles (update_towers (g_towers g2) g2) = ps1 @ p # ps2"
  then show "Game_update g0 = update_projectiles ps2 gm"
    using rest by (simp add: Game_update_def Let_def)
next
  assume live: "p_target p \<in> set (g_enemies gm)"
  from update_projectiles_visit_live[OF live assms(2)] obtain gn
    where gn: "update_projectiles [p] gm = Inr gn"
      and eff: "(\<forall>r. r \<noteq> p_target p \<longrightarrow> enemy_heap gn r = enemy_heap gm r)"
        "enemy_heap gn (p_target p) =
               (if Projectile_arrives (enemy_heap gm) p
                then (enemy_heap gm (p_target p))
                       \<lparr> e_health := e_health (enemy_heap gm (p_target p)) - p_damage p \<rparr>
                else enemy_heap gm (p_target p))"
        "g_money gn =
               (if Projectile_arrives (enemy_heap gm) p
                   \<and> e_health (enemy_heap gm (p_target p)) - p_damage p \<le> 0
                then g_money gm + e_reward (enemy_heap gm (p_target p)) else g_money gm)"
        "g_enemies gn =
               (if Projectile_arrives (enemy_heap gm) p
                   \<and> e_health (enemy_heap gm (p_target p)) - p_damage p \<le> 0
                then remove1 (p_target p) (g_enemies gm) else g_enemies gm)"
        "g_projectiles gn =
               (if Projectile_arrives (enemy_heap gm) p then g_projectiles gm
                else g_projectiles gm @ [Projectile_moved (enemy_heap gm) p])"
    by blast
  have a: "update_projectiles (ps1 @ [p]) g = Inr gn"
    by (rule update_projectiles_prefix(1)[OF assms(1) gn])
  have b: "update_projectiles (ps1 @ p # ps2) g = update_projectiles ps2 gn"
    by (rule update_projectiles_prefix(2)[OF assms(1) gn])
  show "\<exists>gn. update_projectiles (ps1 @ [p]) g = Inr gn
           \<and> update_projectiles (ps1 @ p # ps2) g = update_projectiles ps2 gn
           \<and> (\<forall>r. r \<noteq> p_target p \<longrightarrow> enemy_heap gn r = enemy_heap gm r)
           \<and> enemy_heap gn (p_target p) =
               (if Projectile_arrives (enemy_heap gm) p
                then (enemy_heap gm (p_target p))
                       \<lparr> e_health := e_health (enemy_heap gm (p_target p)) - p_damage p \<rparr>
                else enemy_heap gm (p_target p))
           \<and> g_money gn =
               (if Projectile_arrives (enemy_heap gm) p
                   \<and> e_health (enemy_heap gm (p_target p)) - p_damage p \<le> 0
                then g_money gm + e_reward (enemy_heap gm (p_target p)) else g_money gm)
           \<and> g_enemies gn =
               (if Projectile_arrives (enemy_heap gm) p
                   \<and> e_health (enemy_heap gm (p_target p)) - p_damage p \<le> 0
                then remove1 (p_target p) (g_enemies gm) else g_enemies gm)
           \<and> g_projectiles gn =
               (if Projectile_arrives (enemy_heap gm) p then g_projectiles gm
                else g_projectiles gm @ [Projectile_moved (enemy_heap gm) p])"
    using a b eff by (intro exI[of _ gn]) simp
qed

text \<open>
  The tick from \<open>demo\<close>: after the tower loop four projectiles are in flight, aimed at the
  enemies 2, 4, 3 and 2.  Enemy 2 (a Tank with 30 health left) is live when the loop starts.
  The first projectile kills it and earns its reward of 50; the fourth, visited when
  enemy 2 has just left the live list, changes nothing: the reward is paid once and the
  health stays at 0.
\<close>

theorem C9_projectile_visit_witness:
  "update_projectiles (g_projectiles demo) (demo_aimed\<lparr> g_projectiles := [] \<rparr>) = Inr demo_after
   \<and> g_projectiles demo_aimed
       = g_projectiles demo @ [\<lparr> p_x = 101, p_y = 300, p_target = 2, p_damage = 30, p_speed = 8 \<rparr>]
   \<and> 2 \<in> set (g_enemies demo_aimed) \<and> 2 \<notin> set (g_enemies demo_after)
   \<and> update_projectiles
         (g_projectiles demo @ [\<lparr> p_x = 101, p_y = 300, p_target = 2, p_damage = 30, p_speed = 8 \<rparr>])
         (demo_aimed\<lparr> g_projectiles := [] \<rparr>) = Inr demo_after
   \<and> Game_update demo = Inr demo_after
   \<and> g_money demo_aimed = 0 \<and> g_money demo_after = 50
   \<and> e_health (enemy_heap demo_aimed 2) = 30 \<and> e_health (enemy_heap demo_after 2) = 0
   \<and> (\<exists>gn. update_projectiles [g_projectiles demo ! 0] (demo_aimed\<lparr> g_projectiles := [] \<rparr>) = Inr gn
         \<and> g_money gn = 50 \<and> g_enemies gn = [3] \<and> e_health (enemy_heap gn 2) = 0
         \<and> enemy_heap gn 3 = enemy_heap demo_aimed 3)"
proof -
  let ?new = "\<lparr> p_x = 101, p_y = 300, p_target = 2, p_damage = 30, p_speed = 8 \<rparr>"
  let ?g = "demo_aimed\<lparr> g_projectiles := [] \<rparr>"
  have aimed: "g_projectiles demo_aimed = g_projectiles demo @ [?new]"
    by (simp add: demo_aimed_eq)
  have live0: "2 \<in> set (g_enemies demo_aimed)" "g_money demo_aimed = 0"
    "e_health (enemy_heap demo_aimed 2) = 30"
    using demo_first_shot by simp_all
  have after: "2 \<notin> set (g_enemies demo_after)" "g_money demo_after = 50"
    "e_health (enemy_heap demo_after 2) = 0"
    by (simp_all add: demo_after_eq)
  have tick: "g_state demo = PLAYING
      \<and> update_wave (demo\<lparr> g_frame_count := g_frame_count demo + 1 \<rparr>)
          = Inr (demo\<lparr> g_frame_count := 101 \<rparr>)
      \<and> update_enemies (g_enemies (demo\<lparr> g_frame_count := 101 \<rparr>)) (demo\<lparr> g_frame_count := 101 \<rparr>)
          = Inr demo_moved
      \<and> ?g = (update_towers (g_towers demo_moved) demo_moved)\<lparr> g_projectiles := [] \<rparr>
      \<and> g_projectiles (update_towers (g_towers demo_moved) demo_moved) = g_projectiles demo @ ?new # []"
    using demo_moved_eval aimed by (simp add: demo_aimed_def) (simp add: demo_def)
  have stale: "update_projectiles (g_projectiles demo @ [?new]) ?g = Inr demo_after
      \<and> Game_update demo = update_projectiles [] demo_after"
    using C9_projectile_visit[OF demo_volley, where p = ?new and ?ps2.0 = "[]" and ?g0.0 = demo
        and ?g1.0 = "demo\<lparr> g_frame_count := 101 \<rparr>" and ?g2.0 = demo_moved] after(1) tick
    by simp
  have first: "\<exists>gn. update_projectiles [g_projectiles demo ! 0] ?g = Inr gn
         \<and> g_money gn = 50 \<and> g_enemies gn = [3] \<and> e_health (enemy_heap gn 2) = 0
         \<and> enemy_heap gn 3 = enemy_heap demo_aimed 3"
    using C9_projectile_visit[where ?ps1.0 = "[]" and g = ?g and gm = ?g
        and p = "g_projectiles demo ! 0" and ?ps2.0 = "[]"] demo_first_shot
    by auto
  show ?thesis
    using demo_volley aimed live0 after stale first by simp
qed

subsection \<open>C7: firing\<close>



subsection \<open>C10: the tick in which the game is lost\<close>

text \<open>
  Claim C10.  Let \<open>g\<close> be a game in state \<open>PLAYING\<close>, \<open>g1\<close> the game after the wave phase of
  its tick and \<open>g2\<close> the game after the enemy loop, run over the snapshot \<open>g_enemies g1\<close> (a
  list without repetitions).  Then, whether or not the state has become \<open>GAME_OVER\<close>
  on the way:
  \<^item> every enemy of the snapshot has been moved, once;
  \<^item> \<open>lives\<close> has gone down by the number of enemies of the snapshot that reached the end
    of the path, also below zero, and these enemies have left the live list;
  \<^item> the state is \<open>GAME_OVER\<close> exactly when some enemy reached the end and \<open>lives\<close> is now
    0 or less, and is otherwise as the wave phase left it;
  \<^item> \<^verbatim>\<open>update\<close> returns what the tower loop followed by the projectile loop return from
    \<open>g2\<close>: no test of the state stands between the phases;
  \<^item> the tower loop and the projectile loop do from a game in state \<open>GAME_OVER\<close> exactly
    what they do from the same game in state \<open>PLAYING\<close> (retargeting, firing, moving
    projectiles, damage, rewards), the state apart;
  \<^item> the state after the tick is that of \<open>g2\<close>, and if it is \<open>GAME_OVER\<close> a further
    \<^verbatim>\<open>update\<close> returns the game unchanged.
\<close>

theorem C10_tick_runs_to_the_end:
  assumes pl: "g_state g = PLAYING"
    and w: "update_wave (g\<lparr> g_frame_count := g_frame_count g + 1 \<rparr>) = Inr g1"
    and e: "update_enemies (g_enemies g1) g1 = Inr g2"
    and d: "distinct (g_enemies g1)"
  shows "(\<forall>r \<in> set (g_enemies g1). enemy_heap g2 r = Enemy_moved (enemy_heap g1 r))
     \<and> g_lives g2
         = g_lives g1 - int (length (filter (\<lambda>r. Enemy_reaches (enemy_heap g1 r)) (g_enemies g1)))
     \<and> g_enemies g2 = filter (\<lambda>r. \<not> Enemy_reaches (enemy_heap g1 r)) (g_enemies g1)
     \<and> g_state g2 = (if g_lives g2 \<le> 0 \<and> (\<exists>r \<in> set (g_enemies g1). Enemy_reaches (enemy_heap g1 r))
                     then GAME_OVER else g_state g1)
     \<and> Game_update g
         = update_projectiles (g_projectiles (update_towers (g_towers g2) g2))
             ((update_towers (g_towers g2) g2)\<lparr> g_projectiles := [] \<rparr>)
     \<and> update_towers (g_towers g2) g2
         = (update_towers (g_towers g2) (g2\<lparr> g_state := PLAYING \<rparr>))\<lparr> g_state := g_state g2 \<rparr>
     \<and> update_projectiles ps (gt\<lparr> g_state := g_state g2 \<rparr>)
         = (case update_projectiles ps (gt\<lparr> g_state := PLAYING \<rparr>) of
              Inl err \<Rightarrow> Inl err | Inr g' \<Rightarrow> Inr (g'\<lparr> g_state := g_state g2 \<rparr>))
     \<and> (Game_update g = Inr g' \<longrightarrow>
          g_state g' = g_state g2 \<and> (g_state g2 = GAME_OVER \<longrightarrow> Game_update g' = Inr g'))"
proof -
  note cnt = update_enemies_count[OF e d d]
  have A: "\<forall>r \<in> set (g_enemies g1). enemy_heap g2 r = Enemy_moved (enemy_heap g1 r)"
    using cnt by simp
  have B: "g_lives g2
         = g_lives g1 - int (length (filter (\<lambda>r. Enemy_reaches (enemy_heap g1 r)) (g_enemies g1)))"
    using cnt by simp
  have "g_enemies g2 = filter (\<lambda>r. \<not> (r \<in> set (g_enemies g1) \<and> Enemy_reaches (enemy_heap g1 r)))
                          (g_enemies g1)"
    using cnt by simp
  also have "\<dots> = filter (\<lambda>r. \<not> Enemy_reaches (enemy_heap g1 r)) (g_enemies g1)"
    by (rule filter_cong) simp_all
  finally have C: "g_enemies g2 = filter (\<lambda>r. \<not> Enemy_reaches (enemy_heap g1 r)) (g_enemies g1)" .
  have D: "g_state g2 = (if g_lives g2 \<le> 0 \<and> (\<exists>r \<in> set (g_enemies g1). Enemy_reaches (enemy_heap g1 r))
                     then GAME_OVER else g_state g1)"
    using cnt by simp
  have E: "Game_update g
         = update_projectiles (g_projectiles (update_towers (g_towers g2) g2))
             ((update_towers (g_towers g2) g2)\<lparr> g_projectiles := [] \<rparr>)"
    using pl w e by (simp add: Game_update_def Let_def)
  have F: "update_towers (g_towers g2) g2
         = (update_towers (g_towers g2) (g2\<lparr> g_state := PLAYING \<rparr>))\<lparr> g_state := g_state g2 \<rparr>"
    using update_towers_state[where ts = "g_towers g2" and g = "g2\<lparr> g_state := PLAYING \<rparr>"
        and s = "g_state g2"]
    by simp
  have G: "update_projectiles ps (gt\<lparr> g_state := g_state g2 \<rparr>)
         = (case update_projectiles ps (gt\<lparr> g_state := PLAYING \<rparr>) of
              Inl err \<Rightarrow> Inl err | Inr g' \<Rightarrow> Inr (g'\<lparr> g_state := g_state g2 \<rparr>))"
    using update_projectiles_state[where ps = ps and g = "gt\<lparr> g_state := PLAYING \<rparr>"
        and s = "g_state g2"]
    by simp
  have H: "g_state g' = g_state g2 \<and> (g_state g2 = GAME_OVER \<longrightarrow> Game_update g' = Inr g')"
    if up: "Game_update g = Inr g'"
  proof -
    from up E have p: "update_projectiles (g_projectiles (update_towers (g_towers g2) g2))
             ((update_towers (g_towers g2) g2)\<lparr> g_projectiles := [] \<rparr>) = Inr g'" by simp
    have st: "g_state g' = g_state g2"
      using update_projectiles_frame[OF p] update_towers_frame[of "g_towers g2" g2] by simp
    then show ?thesis by (simp add: Game_update_def)
  qed
  from A B C D E F G H show ?thesis by blast
qed

text \<open>
  The tick from \<open>demo\<close>, with one life left: enemy 0 reaches the end (\<open>lives\<close> 0, game over),
  enemy 1, later in the snapshot, reaches it too (\<open>lives\<close> -1), enemy 3 still moves; the
  tower still fires in this tick; a projectile still kills the Tank and credits 50; the
  next \<^verbatim>\<open>update\<close> changes nothing.
\<close>

theorem C10_tick_runs_to_the_end_witness:
  "g_state demo = PLAYING \<and> g_lives demo = 1 \<and> g_money demo = 0 \<and> distinct (g_enemies demo)
   \<and> update_wave (demo\<lparr> g_frame_count := g_frame_count demo + 1 \<rparr>)
       = Inr (demo\<lparr> g_frame_count := 101 \<rparr>)
   \<and> update_enemies (g_enemies demo) (demo\<lparr> g_frame_count := 101 \<rparr>) = Inr demo_moved
   \<and> filter (\<lambda>r. Enemy_reaches (enemy_heap demo r)) (g_enemies demo) = [0, 1]
   \<and> g_lives demo_moved = -1 \<and> g_state demo_moved = GAME_OVER
   \<and> g_enemies demo_moved = [2, 3]
   \<and> e_x (enemy_heap demo 3) = 300 \<and> e_x (enemy_heap demo_moved 3) = 302
   \<and> demo_aimed = (update_towers (g_towers demo_moved) (demo_moved\<lparr> g_state := PLAYING \<rparr>))
                     \<lparr> g_state := GAME_OVER \<rparr>
   \<and> t_last_shot (tower_heap demo 0) = 0 \<and> t_last_shot (tower_heap demo_aimed 0) = 101
   \<and> g_projectiles demo_aimed
       = g_projectiles demo @ [\<lparr> p_x = 101, p_y = 300, p_target = 2, p_damage = 30, p_speed = 8 \<rparr>]
   \<and> Game_update demo = Inr demo_after
   \<and> g_state demo_after = GAME_OVER \<and> g_lives demo_after = -1 \<and> g_money demo_after = 50
   \<and> g_projectiles demo_after = [\<lparr> p_x = 302, p_y = 308, p_target = 3, p_damage = 30, p_speed = 8 \<rparr>]
   \<and> Game_update demo_after = Inr demo_after"
proof -
  have pre: "g_state demo = PLAYING"
      "update_wave (demo\<lparr> g_frame_count := g_frame_count demo + 1 \<rparr>) = Inr (demo\<lparr> g_frame_count := 101 \<rparr>)"
      "update_enemies (g_enemies (demo\<lparr> g_frame_count := 101 \<rparr>)) (demo\<lparr> g_frame_count := 101 \<rparr>)
         = Inr demo_moved"
      "distinct (g_enemies (demo\<lparr> g_frame_count := 101 \<rparr>))"
    using demo_moved_eval by (simp_all add: demo_def)
  have sel: "g_enemies (demo\<lparr> g_frame_count := 101 \<rparr>) = [0, 1, 2, 3]"
      "enemy_heap (demo\<lparr> g_frame_count := 101 \<rparr>) = demo_enemies"
      "g_lives (demo\<lparr> g_frame_count := 101 \<rparr>) = 1" "g_lives demo = 1" "g_money demo = 0"
      "g_enemies demo = [0, 1, 2, 3]" "enemy_heap demo = demo_enemies"
      "t_last_shot (tower_heap demo 0) = 0" "e_x (enemy_heap demo 3) = 300"
    by (simp_all add: demo_def demo_enemies_def blank_enemy_def Tower_init_def)
  note T = C10_tick_runs_to_the_end[OF pre, where g' = demo_after]
  have lives: "g_lives demo_moved = -1" and over: "g_state demo_moved = GAME_OVER"
    and left: "g_enemies demo_moved = [2, 3]"
    using T demo_reaching by (simp_all add: sel)
  have aimed: "demo_aimed = (update_towers (g_towers demo_moved) (demo_moved\<lparr> g_state := PLAYING \<rparr>))
                     \<lparr> g_state := GAME_OVER \<rparr>"
    using T over by (simp add: demo_aimed_def)
  have after: "g_state demo_after = GAME_OVER" "Game_update demo_after = Inr demo_after"
    using T over demo_update by simp_all
  show ?thesis
    using pre sel lives over left aimed after demo_update demo_reaching demo_aimed_eval
    by (simp add: demo_moved_eq)
qed

end
